theory Spec2Isabelle
  imports Complex_Main
begin

section \<open>Python values\<close>

text \<open>
  The functions of \<^verbatim>\<open>download_youtube.py\<close> receive dynamically typed values: metadata
  dictionaries of the extraction library, progress events, search entries. They are
  modelled by one datatype of values. A dictionary is an association list in insertion
  order, with string keys. Floating-point values are not part of this universe: float
  inputs (a fractional duration, an estimated size) are outside the model, and the floats
  the code computes itself from integers are modelled where they occur.
\<close>

datatype pyval =
    PNone
  | PBool bool
  | PInt int
  | PStr string
  | PList "pyval list"
  | PDict "(string \<times> pyval) list"

text \<open>The exceptions the modelled code can meet. All are subclasses of \<^verbatim>\<open>Exception\<close>.\<close>

datatype error =
    TypeError
  | ValueError
  | AttributeError
  | KeyError
  | OverflowError
  | ZeroDivisionError
  | LibraryError string

text \<open>Truth value of an object, as \<^verbatim>\<open>if x\<close> and \<^verbatim>\<open>not x\<close> test it.\<close>

fun truthy :: "pyval \<Rightarrow> bool" where
  "truthy PNone = False"
| "truthy (PBool b) = b"
| "truthy (PInt n) = (n \<noteq> 0)"
| "truthy (PStr s) = (s \<noteq> [])"
| "truthy (PList xs) = (xs \<noteq> [])"
| "truthy (PDict kvs) = (kvs \<noteq> [])"

text \<open>An integer operand: \<^verbatim>\<open>bool\<close> is a subclass of \<^verbatim>\<open>int\<close>.\<close>

fun as_int :: "pyval \<Rightarrow> int option" where
  "as_int (PInt n) = Some n"
| "as_int (PBool b) = Some (if b then 1 else 0)"
| "as_int _ = None"

text \<open>\<^verbatim>\<open>d.get(key, default)\<close> on a dictionary.\<close>

definition dict_get :: "(string \<times> pyval) list \<Rightarrow> string \<Rightarrow> pyval \<Rightarrow> pyval" where
  "dict_get d k dflt = (case map_of d k of None \<Rightarrow> dflt | Some v \<Rightarrow> v)"

subsection \<open>Decimal rendering of integers\<close>

text \<open>
  \<^verbatim>\<open>str(n)\<close>, and \<^verbatim>\<open>{n}\<close> in an f-string, for an integer: decimal digits, a minus sign for
  a negative number, no padding.
\<close>

definition digit_char :: "int \<Rightarrow> char" where
  "digit_char d = char_of (48 + d)"

function str_digits :: "int \<Rightarrow> string" where
  "str_digits n =
     (if n < 10 then [digit_char n] else str_digits (n div 10) @ [digit_char (n mod 10)])"
  by pat_completeness auto
termination
  by (relation "measure nat") auto

declare str_digits.simps [simp del]

definition str_int :: "int \<Rightarrow> string" where
  "str_int i = (if i < 0 then CHR ''-'' # str_digits (- i) else str_digits i)"

section \<open>Formatter utilities\<close>

subsection \<open>format_duration\<close>

text \<open>
  \<^verbatim>\<open>
  def format_duration(seconds):
      if not seconds:
          return "Unknown"
      hours = seconds // 3600
      minutes = (seconds % 3600) // 60
      seconds = seconds % 60
      if hours > 0:
          return f"{hours}:{minutes}:{seconds}"
      return f"{minutes}:{seconds}"
  \<close>
  Floor division of a string, list or dictionary by an integer raises \<^verbatim>\<open>TypeError\<close>.
\<close>

definition duration_parts :: "int \<Rightarrow> int \<times> int \<times> int" where
  "duration_parts n = (n div 3600, (n mod 3600) div 60, n mod 60)"

definition format_duration :: "pyval \<Rightarrow> error + string" where
  "format_duration seconds =
     (if \<not> truthy seconds then Inr ''Unknown''
      else case as_int seconds of
        None \<Rightarrow> Inl TypeError
      | Some n \<Rightarrow>
          (case duration_parts n of (hours, minutes, secs) \<Rightarrow>
             if hours > 0
             then Inr (str_int hours @ '':'' @ str_int minutes @ '':'' @ str_int secs)
             else Inr (str_int minutes @ '':'' @ str_int secs)))"

subsection \<open>Floats computed from integers\<close>

text \<open>
  A finite binary64 value is modelled by the rational number it denotes. \<^verbatim>\<open>float(n)\<close> of an
  integer and the true division \<^verbatim>\<open>a / b\<close> of two integers both return the binary64 value
  nearest to the exact result, ties to the even significand, and raise
  \<^verbatim>\<open>OverflowError\<close> when that value would reach \<open>2\<^sup>1\<^sup>0\<^sup>2\<^sup>4\<close>. A significand has 53 bits; below
  \<open>2\<^sup>-\<^sup>1\<^sup>0\<^sup>2\<^sup>2\<close> the spacing stays \<open>2\<^sup>-\<^sup>1\<^sup>0\<^sup>7\<^sup>4\<close> (subnormal numbers).
\<close>

text \<open>\<^verbatim>\<open>int.bit_length()\<close> of a positive integer.\<close>

function bit_length :: "int \<Rightarrow> int" where
  "bit_length n = (if n \<le> 0 then 0 else 1 + bit_length (n div 2))"
  by pat_completeness auto
termination
  by (relation "measure nat") auto

declare bit_length.simps [simp del]

text \<open>Rounding to the nearest integer, a tie to the even one.\<close>

definition round_half_even :: "rat \<Rightarrow> int" where
  "round_half_even q =
     (let f = \<lfloor>q\<rfloor>; r = q - of_int f
      in if r < 1 / 2 then f else if 1 / 2 < r then f + 1 else if even f then f else f + 1)"

definition pow2 :: "int \<Rightarrow> rat" where
  "pow2 e = (if 0 \<le> e then 2 ^ nat e else 1 / 2 ^ nat (- e))"

text \<open>The exponent \<open>e\<close> with \<open>2\<^sup>e \<le> q < 2\<^sup>e\<^sup>+\<^sup>1\<close>, for a positive rational \<open>q\<close>.\<close>

definition floor_log2 :: "rat \<Rightarrow> int" where
  "floor_log2 q =
     (case quotient_of q of (a, b) \<Rightarrow>
        let l = bit_length a - bit_length b
        in if pow2 l \<le> q then l else l - 1)"

definition round_double :: "rat \<Rightarrow> error + rat" where
  "round_double q =
     (if q = 0 then Inr 0
      else let e = max (floor_log2 \<bar>q\<bar> - 52) (- 1074);
               m = round_half_even (\<bar>q\<bar> / pow2 e);
               r = of_int m * pow2 e
           in if pow2 1024 \<le> r then Inl OverflowError
              else Inr (if q < 0 then - r else r))"

text \<open>
  The floats \<^verbatim>\<open>format_file_size\<close> handles: finite values and the four special values that
  \<^verbatim>\<open>float\<close> of a string can return.
\<close>

datatype pyfloat = Finite rat | NegZero | PosInf | NegInf | NaN

text \<open>
  \<^verbatim>\<open>float(x)\<close>. The parsing of a string is a parameter, \<open>parse\<close>: it returns \<open>None\<close> where
  \<^verbatim>\<open>float\<close> raises \<^verbatim>\<open>ValueError\<close>. \<^verbatim>\<open>None\<close>, lists and dictionaries raise \<^verbatim>\<open>TypeError\<close>.
\<close>

fun py_float :: "(string \<Rightarrow> pyfloat option) \<Rightarrow> pyval \<Rightarrow> error + pyfloat" where
  "py_float parse PNone = Inl TypeError"
| "py_float parse (PBool b) = Inr (Finite (if b then 1 else 0))"
| "py_float parse (PInt n) =
     (case round_double (of_int n) of Inl e \<Rightarrow> Inl e | Inr r \<Rightarrow> Inr (Finite r))"
| "py_float parse (PStr s) = (case parse s of None \<Rightarrow> Inl ValueError | Some x \<Rightarrow> Inr x)"
| "py_float parse (PList xs) = Inl TypeError"
| "py_float parse (PDict d) = Inl TypeError"

text \<open>\<^verbatim>\<open>x < 1024.0\<close>; every comparison with NaN is false.\<close>

fun float_lt_1024 :: "pyfloat \<Rightarrow> bool" where
  "float_lt_1024 (Finite q) = (q < 1024)"
| "float_lt_1024 NegZero = True"
| "float_lt_1024 PosInf = False"
| "float_lt_1024 NegInf = True"
| "float_lt_1024 NaN = False"

text \<open>
  \<^verbatim>\<open>x /= 1024.0\<close>. The loop divides only a value that is not below 1024; dividing such a
  binary64 value by a power of two changes its exponent only, so the quotient is exact.
\<close>

fun float_div_1024 :: "pyfloat \<Rightarrow> pyfloat" where
  "float_div_1024 (Finite q) = Finite (q / 1024)"
| "float_div_1024 x = x"

text \<open>
  \<^verbatim>\<open>f"{x:.1f}"\<close>: the decimal with one fractional digit nearest to the value, a tie to the
  even digit, with the sign of the value kept when the digits are all zero.
\<close>

fun format_1f :: "pyfloat \<Rightarrow> string" where
  "format_1f (Finite q) =
     (let t = round_half_even (\<bar>q\<bar> * 10)
      in (if q < 0 then ''-'' else []) @ str_int (t div 10) @ ''.'' @ str_int (t mod 10))"
| "format_1f NegZero = ''-0.0''"
| "format_1f PosInf = ''inf''"
| "format_1f NegInf = ''-inf''"
| "format_1f NaN = ''nan''"

subsection \<open>format_file_size\<close>

text \<open>
  \<^verbatim>\<open>
  def format_file_size(size_bytes):
      if not size_bytes or size_bytes == 0:
          return "Unknown"
      try:
          size_bytes = float(size_bytes)
          for unit in ['B', 'KB', 'MB', 'GB']:
              if size_bytes < 1024.0:
                  return f"{size_bytes:.1f} {unit}"
              size_bytes /= 1024.0
          return f"{size_bytes:.1f} TB"
      except (ValueError, TypeError):
          return "Unknown"
  \<close>
  \<open>size_loop\<close> is the \<^verbatim>\<open>for\<close> loop over the units that are left, with the final
  \<^verbatim>\<open>return\<close> for the empty list.
\<close>

fun size_loop :: "string list \<Rightarrow> pyfloat \<Rightarrow> string" where
  "size_loop [] x = format_1f x @ '' TB''"
| "size_loop (unit # units) x =
     (if float_lt_1024 x then format_1f x @ '' '' @ unit
      else size_loop units (float_div_1024 x))"

text \<open>\<^verbatim>\<open>x == 0\<close>.\<close>

fun py_eq_zero :: "pyval \<Rightarrow> bool" where
  "py_eq_zero (PInt n) = (n = 0)"
| "py_eq_zero (PBool b) = (\<not> b)"
| "py_eq_zero _ = False"

definition format_file_size :: "(string \<Rightarrow> pyfloat option) \<Rightarrow> pyval \<Rightarrow> error + string" where
  "format_file_size parse size_bytes =
     (if \<not> truthy size_bytes \<or> py_eq_zero size_bytes then Inr ''Unknown''
      else case py_float parse size_bytes of
             Inr x \<Rightarrow> Inr (size_loop [''B'', ''KB'', ''MB'', ''GB''] x)
           | Inl ValueError \<Rightarrow> Inr ''Unknown''
           | Inl TypeError \<Rightarrow> Inr ''Unknown''
           | Inl e \<Rightarrow> Inl e)"

text \<open>
  For the statement of the unit selection: the value after \<open>k\<close> divisions by 1024, and the
  unit names in the order the code tries them.
\<close>

definition scaled :: "nat \<Rightarrow> pyfloat \<Rightarrow> pyfloat" where
  "scaled k x = (float_div_1024 ^^ k) x"

definition unit_names :: "string list" where
  "unit_names = [''B'', ''KB'', ''MB'', ''GB'', ''TB'']"

section \<open>Dictionaries, strings and the display sink\<close>

text \<open>
  A dictionary of the program is an association list in insertion order (keys are
  distinct in every dictionary Python builds). \<open>dict_set\<close> is the assignment
  \<^verbatim>\<open>d[k] = v\<close>: an existing key keeps its position, a new key goes to the end.
\<close>

type_synonym pydict = "(string \<times> pyval) list"

text \<open>Sequencing of steps that can raise: the first exception ends the computation.\<close>

definition try_bind :: "error + 'a \<Rightarrow> ('a \<Rightarrow> error + 'b) \<Rightarrow> error + 'b" where
  "try_bind r f = (case r of Inl e \<Rightarrow> Inl e | Inr x \<Rightarrow> f x)"

fun dict_set :: "pydict \<Rightarrow> string \<Rightarrow> pyval \<Rightarrow> pydict" where
  "dict_set [] k v = [(k, v)]"
| "dict_set ((k', v') # d) k v = (if k' = k then (k, v) # d else (k', v') # dict_set d k v)"

text \<open>
  \<^verbatim>\<open>str(x)\<close>, as an f-string applies it. The rendering of a list or of a dictionary is
  the interpreter's \<^verbatim>\<open>repr\<close>; it is left as the parameter \<open>rp\<close>.
\<close>

fun py_str :: "(pyval \<Rightarrow> string) \<Rightarrow> pyval \<Rightarrow> string" where
  "py_str rp (PStr s) = s"
| "py_str rp PNone = ''None''"
| "py_str rp (PBool b) = (if b then ''True'' else ''False'')"
| "py_str rp (PInt n) = str_int n"
| "py_str rp (PList xs) = rp (PList xs)"
| "py_str rp (PDict d) = rp (PDict d)"

text \<open>The emoji of the messages, as their UTF-8 bytes.\<close>

definition check_mark :: string where
  "check_mark = [CHR 0xE2, CHR 0x9C, CHR 0x85]"

definition cross_mark :: string where
  "cross_mark = [CHR 0xE2, CHR 0x9D, CHR 0x8C]"

definition inbox_tray :: string where
  "inbox_tray = [CHR 0xF0, CHR 0x9F, CHR 0x93, CHR 0xA5]"

definition bar_chart :: string where
  "bar_chart = [CHR 0xF0, CHR 0x9F, CHR 0x93, CHR 0x8A]"

definition rocket :: string where
  "rocket = [CHR 0xF0, CHR 0x9F, CHR 0x9A, CHR 0x80]"

definition stopwatch :: string where
  "stopwatch = [CHR 0xE2, CHR 0x8F, CHR 0xB1, CHR 0xEF, CHR 0xB8, CHR 0x8F]"


definition newline :: string where
  "newline = [CHR 0x0A]"

text \<open>
  The display sink is the Streamlit page and the placeholders on it. The model records the
  calls made on it, in order: \<^verbatim>\<open>progress(value, text)\<close>, \<^verbatim>\<open>info\<close>, \<^verbatim>\<open>success\<close>, \<^verbatim>\<open>error\<close>,
  \<^verbatim>\<open>warning\<close> and \<^verbatim>\<open>st.write\<close>. An error message is a fixed prefix followed by \<^verbatim>\<open>str(e)\<close>;
  \<open>Failure\<close> keeps the prefix and the exception itself. What the sink does with a call is
  outside the model.
\<close>

datatype sink_call =
    Progress rat string
  | Info string
  | Success string
  | Failure string error
  | Warning string
  | Write string

section \<open>Progress reporter\<close>

text \<open>
  \<^verbatim>\<open>os.path.basename\<close> (the part after the last slash) and \<^verbatim>\<open>str.strip()\<close> (ASCII white
  space is removed at both ends).
\<close>

definition py_basename :: "string \<Rightarrow> string" where
  "py_basename p = rev (takeWhile (\<lambda>c. c \<noteq> CHR ''/'') (rev p))"

definition is_space :: "char \<Rightarrow> bool" where
  "is_space c = (c \<in> set [CHR 0x09, CHR 0x0A, CHR 0x0B, CHR 0x0C, CHR 0x0D,
                           CHR 0x1C, CHR 0x1D, CHR 0x1E, CHR 0x1F, CHR 0x20])"

definition py_strip :: "string \<Rightarrow> string" where
  "py_strip s = rev (dropWhile is_space (rev (dropWhile is_space s)))"

text \<open>\<^verbatim>\<open>d.get(k, dflt).strip()\<close>: only a string has the method.\<close>

definition get_stripped :: "pydict \<Rightarrow> string \<Rightarrow> string \<Rightarrow> error + string" where
  "get_stripped d k dflt =
     (case dict_get d k (PStr dflt) of PStr s \<Rightarrow> Inr (py_strip s) | _ \<Rightarrow> Inl AttributeError)"

text \<open>
  \<^verbatim>\<open>total > 0\<close> and \<^verbatim>\<open>downloaded / total\<close> on integers (and booleans, which are
  integers). The quotient of two integers is the binary64 value nearest to the exact
  quotient.
\<close>

fun py_gt_zero :: "pyval \<Rightarrow> error + bool" where
  "py_gt_zero (PInt n) = Inr (0 < n)"
| "py_gt_zero (PBool b) = Inr b"
| "py_gt_zero _ = Inl TypeError"

definition py_truediv :: "pyval \<Rightarrow> pyval \<Rightarrow> error + rat" where
  "py_truediv a b =
     (case (as_int a, as_int b) of
        (Some x, Some y) \<Rightarrow>
          if y = 0 then Inl ZeroDivisionError else round_double (of_int x / of_int y)
      | _ \<Rightarrow> Inl TypeError)"

text \<open>
  \<^verbatim>\<open>
  def progress_hook(d):
      filename = os.path.basename(d.get('filename', 'Unknown'))
      if d['status'] == 'downloading':
          percent_str = d.get('_percent_str', '0%').strip()
          speed = d.get('_speed_str', '0KB/s').strip()
          eta = d.get('_eta_str', 'Unknown').strip()
          downloaded = d.get('downloaded_bytes', 0)
          total = d.get('total_bytes', d.get('total_bytes_estimate', 0))
          if total and total > 0:
              progress_percent = min(downloaded / total, 1.0)
              container.progress(progress_percent, text=f"<inbox> {filename}")
          status_text = f"**Downloading:** {filename}\n"
          status_text += f"<chart> Progress: {percent_str} | <rocket> Speed: {speed} | <watch> ETA: {eta}"
          container.info(status_text)
      elif d['status'] == 'finished':
          container.success(f"<check> **Download Complete:** {filename}")
  \<close>
  The result is the list of calls the hook makes on the container, or the exception it
  raises; every exception is raised before the first call. \<open>progress_bar\<close> is the
  \<^verbatim>\<open>if total and total > 0\<close> statement.
\<close>

definition progress_bar :: "pyval \<Rightarrow> pyval \<Rightarrow> string \<Rightarrow> error + sink_call list" where
  "progress_bar downloaded total_bytes filename =
     (if \<not> truthy total_bytes then Inr []
      else try_bind (py_gt_zero total_bytes) (\<lambda>positive.
        if \<not> positive then Inr []
        else try_bind (py_truediv downloaded total_bytes) (\<lambda>ratio.
          Inr [Progress (min ratio 1) (inbox_tray @ '' '' @ filename)])))"

definition status_text :: "string \<Rightarrow> string \<Rightarrow> string \<Rightarrow> string \<Rightarrow> string" where
  "status_text filename percent_str speed eta =
     ''**Downloading:** '' @ filename @ newline
     @ bar_chart @ '' Progress: '' @ percent_str @ '' | '' @ rocket @ '' Speed: '' @ speed
     @ '' | '' @ stopwatch @ '' ETA: '' @ eta"

definition progress_hook :: "pydict \<Rightarrow> error + sink_call list" where
  "progress_hook d =
     (case dict_get d ''filename'' (PStr ''Unknown'') of
        PStr path \<Rightarrow>
          (let filename = py_basename path in
           case map_of d ''status'' of
             None \<Rightarrow> Inl KeyError
           | Some status \<Rightarrow>
               if status = PStr ''downloading'' then
                 try_bind (get_stripped d ''_percent_str'' ''0%'') (\<lambda>percent_str.
                 try_bind (get_stripped d ''_speed_str'' ''0KB/s'') (\<lambda>speed.
                 try_bind (get_stripped d ''_eta_str'' ''Unknown'') (\<lambda>eta.
                   let downloaded = dict_get d ''downloaded_bytes'' (PInt 0);
                       total_bytes = dict_get d ''total_bytes''
                                 (dict_get d ''total_bytes_estimate'' (PInt 0))
                   in try_bind (progress_bar downloaded total_bytes filename) (\<lambda>bar.
                        Inr (bar @ [Info (status_text filename percent_str speed eta)])))))
               else if status = PStr ''finished'' then
                 Inr [Success (check_mark @ '' **Download Complete:** '' @ filename)]
               else Inr [])
      | _ \<Rightarrow> Inl TypeError)"

section \<open>The extraction library and the state of the program\<close>

text \<open>
  The extraction and download library is outside the repository. The model takes it as a
  parameter: what \<^verbatim>\<open>extract_info\<close> returns or raises for a URL (with the options of
  \<^verbatim>\<open>get_video_info\<close>, and with the flat options of the search), what a download does (the
  progress events it delivers to the hooks, then whether it raises) and what the clock
  reads. Each answer may depend on the calls made before, which the state records, so
  two calls with the same argument need not agree.
\<close>

datatype lib_call =
    ExtractInfo string
  | Download pydict string
  | ExtractFlat string

record library =
  extract_info :: "lib_call list \<Rightarrow> string \<Rightarrow> error + pyval"
  transfer :: "lib_call list \<Rightarrow> pydict \<Rightarrow> string \<Rightarrow> pydict list \<times> (error + unit)"
  extract_flat :: "lib_call list \<Rightarrow> string \<Rightarrow> error + pyval"
  now_iso :: "lib_call list \<Rightarrow> string"

record world =
  history_file :: "pyval list option"
  sink :: "sink_call list"
  lib_calls :: "lib_call list"

text \<open>
  The state: the history file \<^verbatim>\<open>progress/download_history.json\<close> (\<open>None\<close> while it does
  not exist), the calls made on the display sink, and the calls made on the library. The
  program writes the history file in two places only, each a \<^verbatim>\<open>json.dump\<close> of a list, so
  the file, when it exists, holds a JSON array; it is modelled by the list of values of
  the array, which \<^verbatim>\<open>json.load\<close> returns as \<^verbatim>\<open>json.dump\<close> wrote them.
\<close>

definition emit :: "sink_call list \<Rightarrow> world \<Rightarrow> world" where
  "emit cs w = w\<lparr>sink := sink w @ cs\<rparr>"

section \<open>History store\<close>

text \<open>
  \<^verbatim>\<open>
  def load_download_history():
      if os.path.exists(METADATA_FILE):
          with open(METADATA_FILE, "r") as f:
              return json.load(f)
      return []

  def save_download_history(video_info):
      history = load_download_history()
      download_record = {
          "title": video_info.get("title", "Unknown"),
          "url": video_info.get("webpage_url", ""),
          "duration": video_info.get("duration", 0),
          "uploader": video_info.get("uploader", "Unknown"),
          "download_date": datetime.now().isoformat(),
          "file_size": video_info.get("filesize", 0),
          "format": video_info.get("ext", "unknown")
      }
      history.append(download_record)
      with open(METADATA_FILE, "w") as f:
          json.dump(history, f, indent=2)
  \<close>
  \<open>now\<close> is the reading of the clock. A \<^verbatim>\<open>video_info\<close> that is not a dictionary has no
  \<^verbatim>\<open>get\<close>: the call raises before the file is opened for writing.
\<close>

definition load_download_history :: "world \<Rightarrow> pyval list" where
  "load_download_history w = (case history_file w of None \<Rightarrow> [] | Some history \<Rightarrow> history)"

definition download_record :: "string \<Rightarrow> pydict \<Rightarrow> pydict" where
  "download_record now video_info =
     [(''title'', dict_get video_info ''title'' (PStr ''Unknown'')),
      (''url'', dict_get video_info ''webpage_url'' (PStr '''')),
      (''duration'', dict_get video_info ''duration'' (PInt 0)),
      (''uploader'', dict_get video_info ''uploader'' (PStr ''Unknown'')),
      (''download_date'', PStr now),
      (''file_size'', dict_get video_info ''filesize'' (PInt 0)),
      (''format'', dict_get video_info ''ext'' (PStr ''unknown''))]"

definition save_download_history :: "string \<Rightarrow> pyval \<Rightarrow> world \<Rightarrow> error + world" where
  "save_download_history now video_info w =
     (let history = load_download_history w
      in case video_info of
           PDict info \<Rightarrow>
             Inr (w\<lparr>history_file := Some (history @ [PDict (download_record now info)])\<rparr>)
         | _ \<Rightarrow> Inl AttributeError)"

section \<open>Download\<close>

text \<open>
  \<^verbatim>\<open>
  def get_video_info(url):
      ydl_opts = {'quiet': True, 'skip_download': True}
      with YoutubeDL(ydl_opts) as ydl:
          return ydl.extract_info(url, download=False)
  \<close>
\<close>

definition get_video_info :: "library \<Rightarrow> string \<Rightarrow> world \<Rightarrow> (error + pyval) \<times> world" where
  "get_video_info lib url w =
     (extract_info lib (lib_calls w) url, w\<lparr>lib_calls := lib_calls w @ [ExtractInfo url]\<rparr>)"

text \<open>
  The library calls the progress hook on each event it delivers. An exception of the hook
  leaves the download through \<^verbatim>\<open>ydl.download\<close>; the events after it are not delivered.
\<close>

fun run_hooks :: "pydict list \<Rightarrow> sink_call list \<times> error option" where
  "run_hooks [] = ([], None)"
| "run_hooks (d # ds) =
     (case progress_hook d of
        Inl e \<Rightarrow> ([], Some e)
      | Inr cs \<Rightarrow> (case run_hooks ds of (cs', r) \<Rightarrow> (cs @ cs', r)))"

text \<open>The options of the download, without the hook (a function).\<close>

definition ydl_opts :: "bool \<Rightarrow> string \<Rightarrow> pydict" where
  "ydl_opts audio_only quality =
     (let output_template = ''downloads/%(title)s.%(ext)s''
      in if audio_only then
           [(''format'', PStr ''bestaudio/best''),
            (''outtmpl'', PStr output_template),
            (''postprocessors'',
               PList [PDict [(''key'', PStr ''FFmpegExtractAudio''),
                             (''preferredcodec'', PStr ''mp3''),
                             (''preferredquality'', PStr ''192'')]])]
         else
           [(''format'', PStr (if quality = ''best'' then ''best[height<=1080]''
                               else if quality = ''720p'' then ''best[height<=720]''
                               else if quality = ''480p'' then ''best[height<=480]''
                               else ''best'')),
            (''outtmpl'', PStr output_template)])"

text \<open>
  The first statement of \<^verbatim>\<open>download_video_advanced\<close>,
  \<^verbatim>\<open>video_id = url.split('v=')[-1].split('&')[0] if 'v=' in url else str(hash(url))\<close>,
  computes a value that nothing reads. It raises when \<^verbatim>\<open>url\<close> is not a string: the
  membership test is a \<^verbatim>\<open>TypeError\<close> on None and on a number; a list or a dictionary
  passes the test and then has no \<^verbatim>\<open>split\<close>, or fails it and cannot be hashed.
\<close>

fun video_id_check :: "pyval \<Rightarrow> error + string" where
  "video_id_check (PStr url) = Inr url"
| "video_id_check (PList xs) = (if PStr ''v='' \<in> set xs then Inl AttributeError else Inl TypeError)"
| "video_id_check (PDict d) = (if ''v='' \<in> fst ` set d then Inl AttributeError else Inl TypeError)"
| "video_id_check _ = Inl TypeError"

text \<open>
  \<^verbatim>\<open>with YoutubeDL(ydl_opts) as ydl: ydl.download([url])\<close>, with the hook installed when a
  progress container was given.
\<close>

definition ydl_download ::
  "library \<Rightarrow> pydict \<Rightarrow> bool \<Rightarrow> string \<Rightarrow> world \<Rightarrow> (error + unit) \<times> world" where
  "ydl_download lib opts hooked url w =
     (case transfer lib (lib_calls w) opts url of (events, outcome) \<Rightarrow>
        let w1 = w\<lparr>lib_calls := lib_calls w @ [Download opts url]\<rparr>
        in if hooked then
             (case run_hooks events of
                (cs, Some e) \<Rightarrow> (Inl e, emit cs w1)
              | (cs, None) \<Rightarrow> (outcome, emit cs w1))
           else (outcome, w1))"

text \<open>
  \<^verbatim>\<open>
  def download_video_advanced(url, audio_only=False, quality='best', progress_container=None):
      video_id = ...
      try:
          video_info = get_video_info(url)
      except Exception as e:
          if progress_container:
              progress_container.error(f"<cross> Error getting video info: {str(e)}")
          return False
      ... ydl_opts ...
      if progress_container:
          progress_tracker = DownloadProgress()
          ydl_opts['progress_hooks'] = [progress_tracker.create_progress_hook(video_id, progress_container)]
      try:
          with YoutubeDL(ydl_opts) as ydl:
              ydl.download([url])
          save_download_history(video_info)
          return True
      except Exception as e:
          if progress_container:
              progress_container.error(f"<cross> Download failed: {str(e)}")
          return False
  \<close>
  \<open>progress_container\<close> says whether a container was given (a Streamlit placeholder is a
  true value). The result is the returned boolean with the new state, or the exception the
  first statement raises.
\<close>

definition download_video_advanced ::
  "library \<Rightarrow> pyval \<Rightarrow> bool \<Rightarrow> string \<Rightarrow> bool \<Rightarrow> world \<Rightarrow> error + bool \<times> world" where
  "download_video_advanced lib url audio_only quality progress_container w =
     try_bind (video_id_check url) (\<lambda>url.
       case get_video_info lib url w of
         (Inl e, w1) \<Rightarrow>
           Inr (False,
                if progress_container
                then emit [Failure (cross_mark @ '' Error getting video info: '') e] w1
                else w1)
       | (Inr video_info, w1) \<Rightarrow>
           (case ydl_download lib (ydl_opts audio_only quality) progress_container url w1 of
              (Inl e, w2) \<Rightarrow>
                Inr (False,
                     if progress_container
                     then emit [Failure (cross_mark @ '' Download failed: '') e] w2
                     else w2)
            | (Inr u, w2) \<Rightarrow>
                (case save_download_history (now_iso lib (lib_calls w2)) video_info w2 of
                   Inl e \<Rightarrow>
                     Inr (False,
                          if progress_container
                          then emit [Failure (cross_mark @ '' Download failed: '') e] w2
                          else w2)
                 | Inr w3 \<Rightarrow> Inr (True, w3))))"

section \<open>Batch and selection orchestrators\<close>





text \<open>
  \<^verbatim>\<open>
  def download_selected_videos(selected_videos, audio_only=False, quality='best'):
      if not selected_videos:
          st.warning("<warning> No videos selected for download")
          return
      ...
      for i, video_data in enumerate(selected_videos, 1):
          with progress_placeholder.container():
              st.write(f"### Processing Video {i}/{len(selected_videos)}")
              st.write(f"**Title:** {video_data.get('title', 'Unknown')}")
              video_container = st.empty()
              video_url = video_data.get('url')
              if not video_url:
                  video_url = f"https://www.youtube.com/watch?v={video_data.get('id', '')}"
              if download_video_advanced(video_url, audio_only, quality, video_container):
                  successful_downloads += 1
              else:
                  failed_downloads += 1
          time.sleep(1)
      status_placeholder.success(
          f"<check> Selected downloads complete!\n"
          f"<check> Successful: {successful_downloads} | <cross> Failed: {failed_downloads}")
  \<close>
  The pause between two items changes nothing in the state.
\<close>

definition watch_url :: "(pyval \<Rightarrow> string) \<Rightarrow> pyval \<Rightarrow> string" where
  "watch_url rp video_id = ''https://www.youtube.com/watch?v='' @ py_str rp video_id"




section \<open>Search\<close>

text \<open>
  \<^verbatim>\<open>
  def search_youtube_advanced(query, max_results=10, search_type="video"):
      search_prefix = f"ytsearch{max_results}:"
      if search_type == "playlist":
          search_prefix = f"ytplaylist:"
      ydl_opts = {'quiet': True, 'skip_download': True, 'extract_flat': True}
      try:
          with YoutubeDL(ydl_opts) as ydl:
              if search_type == "playlist":
                  result = ydl.extract_info(query, download=False)
                  entries = result.get("entries", [])
              else:
                  result = ydl.extract_info(f"{search_prefix}{query}", download=False)
                  entries = result.get("entries", [])
              for entry in entries:
                  if entry and entry.get('id'):
                      if not entry.get('url') or not entry['url'].startswith('http'):
                          entry['url'] = f"https://www.youtube.com/watch?v={entry['id']}"
              return entries
      except Exception as e:
          st.error(f"Search error: {str(e)}")
          return []
  \<close>
  \<open>resolve_entry\<close> is the body of the loop on one entry and \<open>resolve_entries\<close> the loop on
  a list; the entries are changed in place, so the list returned holds the entries the
  loop leaves. \<open>ensure_urls\<close> is the loop on whatever value \<^verbatim>\<open>entries\<close> is: a string
  yields its characters and a dictionary its keys, and any other value that is not a list
  cannot be iterated.
\<close>

definition starts_with_http :: "string \<Rightarrow> bool" where
  "starts_with_http s = (take 4 s = ''http'')"

definition resolve_entry :: "(pyval \<Rightarrow> string) \<Rightarrow> pyval \<Rightarrow> error + pyval" where
  "resolve_entry rp entry =
     (if \<not> truthy entry then Inr entry
      else case entry of
        PDict d \<Rightarrow>
          if truthy (dict_get d ''id'' PNone) then
            (let url = dict_get d ''url'' PNone;
                 rewritten = PDict (dict_set d ''url''
                                      (PStr (watch_url rp (dict_get d ''id'' PNone))))
             in if \<not> truthy url then Inr rewritten
                else case url of
                  PStr s \<Rightarrow> if \<not> starts_with_http s then Inr rewritten else Inr entry
                | _ \<Rightarrow> Inl AttributeError)
          else Inr entry
      | _ \<Rightarrow> Inl AttributeError)"

fun resolve_entries :: "(pyval \<Rightarrow> string) \<Rightarrow> pyval list \<Rightarrow> error + pyval list" where
  "resolve_entries rp [] = Inr []"
| "resolve_entries rp (entry # entries) =
     try_bind (resolve_entry rp entry) (\<lambda>entry'.
       try_bind (resolve_entries rp entries) (\<lambda>entries'. Inr (entry' # entries')))"

fun py_iter :: "pyval \<Rightarrow> error + pyval list" where
  "py_iter (PList xs) = Inr xs"
| "py_iter (PStr s) = Inr (map (\<lambda>c. PStr [c]) s)"
| "py_iter (PDict d) = Inr (map (\<lambda>(k, v). PStr k) d)"
| "py_iter _ = Inl TypeError"

definition ensure_urls :: "(pyval \<Rightarrow> string) \<Rightarrow> pyval \<Rightarrow> error + pyval" where
  "ensure_urls rp entries =
     (case entries of
        PList xs \<Rightarrow> try_bind (resolve_entries rp xs) (\<lambda>xs'. Inr (PList xs'))
      | _ \<Rightarrow> try_bind (py_iter entries) (\<lambda>items.
               try_bind (resolve_entries rp items) (\<lambda>items'. Inr entries)))"

definition search_request :: "string \<Rightarrow> int \<Rightarrow> string \<Rightarrow> string" where
  "search_request query max_results search_type =
     (let search_prefix = ''ytsearch'' @ str_int max_results @ '':'';
          search_prefix = (if search_type = ''playlist'' then ''ytplaylist:'' else search_prefix)
      in if search_type = ''playlist'' then query else search_prefix @ query)"

definition search_youtube_advanced ::
  "(pyval \<Rightarrow> string) \<Rightarrow> library \<Rightarrow> string \<Rightarrow> int \<Rightarrow> string \<Rightarrow> world \<Rightarrow> pyval \<times> world" where
  "search_youtube_advanced rp lib query max_results search_type w =
     (let request = search_request query max_results search_type;
          w1 = w\<lparr>lib_calls := lib_calls w @ [ExtractFlat request]\<rparr>
      in case try_bind (extract_flat lib (lib_calls w) request) (\<lambda>result.
                case result of
                  PDict d \<Rightarrow> ensure_urls rp (dict_get d ''entries'' (PList []))
                | _ \<Rightarrow> Inl AttributeError) of
           Inl e \<Rightarrow> (PList [], emit [Failure ''Search error: '' e] w1)
         | Inr entries \<Rightarrow> (entries, w1))"

text \<open>
  Vocabulary for the statements about the loop: an entry has an id when the field is
  present and true (not None, not empty, not zero); its URL is direct when it is a
  string that starts with \<^verbatim>\<open>http\<close>; it lacks a direct URL when the field is absent or
  false, or a string that does not start with \<^verbatim>\<open>http\<close>. An entry is well typed for
  the loop when it is a false value, or a dictionary whose URL, if true, is a string.
\<close>

definition has_id :: "pydict \<Rightarrow> bool" where
  "has_id d = truthy (dict_get d ''id'' PNone)"

definition has_http_url :: "pydict \<Rightarrow> bool" where
  "has_http_url d = (case dict_get d ''url'' PNone of PStr s \<Rightarrow> starts_with_http s | _ \<Rightarrow> False)"

definition lacks_http_url :: "pydict \<Rightarrow> bool" where
  "lacks_http_url d =
     (case dict_get d ''url'' PNone of
        PStr s \<Rightarrow> \<not> starts_with_http s
      | u \<Rightarrow> \<not> truthy u)"

fun entry_ok :: "pyval \<Rightarrow> bool" where
  "entry_ok (PDict d) = (d = [] \<or> \<not> has_id d \<or> has_http_url d \<or> lacks_http_url d)"
| "entry_ok e = (\<not> truthy e)"

text \<open>An environment for the examples: a library that answers a flat query with the
  given entries and fails every other call, and the state before the first call.\<close>

definition flat_library :: "pyval list \<Rightarrow> library" where
  "flat_library entries =
     \<lparr>extract_info = (\<lambda>calls url. Inl (LibraryError ''unavailable'')),
      transfer = (\<lambda>calls opts url. ([], Inl (LibraryError ''unavailable''))),
      extract_flat = (\<lambda>calls request. Inr (PDict [(''entries'', PList entries)])),
      now_iso = (\<lambda>calls. ''2024-01-01T00:00:00'')\<rparr>"

definition initial_world :: world where
  "initial_world = \<lparr>history_file = None, sink = [], lib_calls = []\<rparr>"

section \<open>Vocabulary of the statements about downloads\<close>

text \<open>
  The transfer of a download succeeds when the library's download, called after the
  metadata fetch, ends without raising and, a progress container being given, no hook
  raises on an event.
\<close>

definition transfer_succeeds :: "library \<Rightarrow> bool \<Rightarrow> string \<Rightarrow> bool \<Rightarrow> string \<Rightarrow> world \<Rightarrow> bool" where
  "transfer_succeeds lib audio_only quality progress_container url w =
     (case transfer lib (lib_calls w @ [ExtractInfo url]) (ydl_opts audio_only quality) url of
        (events, outcome) \<Rightarrow>
          outcome = Inr () \<and> (progress_container \<longrightarrow> snd (run_hooks events) = None))"








text \<open>A library for the examples: one URL has no metadata, one stalls in the transfer.\<close>

definition example_library :: library where
  "example_library =
     \<lparr>extract_info = (\<lambda>calls url.
        if url = ''bad'' then Inl (LibraryError ''unavailable'')
        else Inr (PDict [(''title'', PStr ''Song''), (''ext'', PStr ''mp4'')])),
      transfer = (\<lambda>calls opts url.
        if url = ''stall'' then ([], Inl (LibraryError ''network''))
        else ([[(''status'', PStr ''finished''), (''filename'', PStr ''downloads/Song.mp4'')]],
              Inr ())),
      extract_flat = (\<lambda>calls request. Inl (LibraryError ''unavailable'')),
      now_iso = (\<lambda>calls. ''2024-01-01T00:00:00'')\<rparr>"

section \<open>Vocabulary of the statements about progress events\<close>






section \<open>Properties of the formatter utilities\<close>

lemma duration_parts_sum:
  "duration_parts n = (h, m, s) \<Longrightarrow> 3600 * h + 60 * m + s = n"
proof -
  assume a: "duration_parts n = (h, m, s)"
  have h: "h = n div 3600" and m: "m = (n mod 3600) div 60" and s: "s = n mod 60"
    using a by (simp_all add: duration_parts_def)
  have "(n mod 3600) mod 60 = n mod 60"
    by (simp add: mod_mod_cancel)
  then have "60 * m + s = n mod 3600"
    unfolding m s by (metis mult_div_mod_eq)
  then show ?thesis
    unfolding h by (metis add.assoc mult_div_mod_eq)
qed

lemma duration_parts_range:
  "duration_parts n = (h, m, s) \<Longrightarrow> 0 \<le> m \<and> m < 60 \<and> 0 \<le> s \<and> s < 60"
  by (auto simp: duration_parts_def pos_imp_zdiv_nonneg_iff)

lemma str_int_1: "str_int 1 = ''1''"
  by code_simp

lemma str_int_2: "str_int 2 = ''2''"
  by code_simp

lemma str_int_5: "str_int 5 = ''5''"
  by code_simp

text \<open>
  C4. \<^verbatim>\<open>format_duration\<close> returns "Unknown" for every falsy input (None, zero, and the
  empty values). For a non-zero integer of seconds it splits the total into hours,
  minutes and seconds (the three parts recompose the total, minutes and seconds lie in
  0..59) and renders the three numbers, unpadded and separated by colons, when the hours
  are positive, and minutes and seconds only otherwise. The four sample values of the
  specification are as stated.
\<close>

theorem format_duration_spec:
  "(\<not> truthy v \<longrightarrow> format_duration v = Inr ''Unknown'')
   \<and> (n \<noteq> 0 \<longrightarrow>
        (\<exists>h m s. duration_parts n = (h, m, s)
           \<and> 3600 * h + 60 * m + s = n \<and> 0 \<le> m \<and> m < 60 \<and> 0 \<le> s \<and> s < 60
           \<and> format_duration (PInt n) =
               Inr (if h > 0 then str_int h @ '':'' @ str_int m @ '':'' @ str_int s
                    else str_int m @ '':'' @ str_int s)))
   \<and> format_duration (PInt 0) = Inr ''Unknown''
   \<and> format_duration PNone = Inr ''Unknown''
   \<and> format_duration (PInt 3661) = Inr ''1:1:1''
   \<and> format_duration (PInt 125) = Inr ''2:5''"
proof (intro conjI impI)
  assume "\<not> truthy v"
  then show "format_duration v = Inr ''Unknown''"
    by (simp add: format_duration_def)
next
  assume nz: "n \<noteq> 0"
  obtain h m s where p: "duration_parts n = (h, m, s)"
    by (cases "duration_parts n") auto
  have f: "format_duration (PInt n) =
      Inr (if h > 0 then str_int h @ '':'' @ str_int m @ '':'' @ str_int s
           else str_int m @ '':'' @ str_int s)"
    using nz p by (simp add: format_duration_def)
  show "\<exists>h m s. duration_parts n = (h, m, s)
           \<and> 3600 * h + 60 * m + s = n \<and> 0 \<le> m \<and> m < 60 \<and> 0 \<le> s \<and> s < 60
           \<and> format_duration (PInt n) =
               Inr (if h > 0 then str_int h @ '':'' @ str_int m @ '':'' @ str_int s
                    else str_int m @ '':'' @ str_int s)"
    using p f duration_parts_sum [OF p] duration_parts_range [OF p] by blast
next
  show "format_duration (PInt 0) = Inr ''Unknown''"
    by (simp add: format_duration_def)
next
  show "format_duration PNone = Inr ''Unknown''"
    by (simp add: format_duration_def)
next
  show "format_duration (PInt 3661) = Inr ''1:1:1''"
    by (simp add: format_duration_def duration_parts_def str_int_1)
next
  show "format_duration (PInt 125) = Inr ''2:5''"
    by (simp add: format_duration_def duration_parts_def str_int_2 str_int_5)
qed

theorem format_duration_spec_witness:
  "\<not> truthy (PStr '''') \<and> format_duration (PStr '''') = Inr ''Unknown''
   \<and> (7322::int) \<noteq> 0 \<and> duration_parts 7322 = (2, 2, 2)
   \<and> format_duration (PInt 7322) = Inr ''2:2:2''"
  using format_duration_spec [of "PStr ''''" 7322]
  by (simp add: duration_parts_def str_int_2)

subsection \<open>Rounding to binary64\<close>

lemma bit_length_le: "n < 2 ^ k \<Longrightarrow> bit_length n \<le> int k"
proof (induction k arbitrary: n)
  case 0
  then show ?case by (simp add: bit_length.simps)
next
  case (Suc k)
  show ?case
  proof (cases "n \<le> 0")
    case True
    then show ?thesis by (simp add: bit_length.simps)
  next
    case False
    have "n div 2 < 2 ^ k" using Suc.prems by simp
    then have "bit_length (n div 2) \<le> int k" by (rule Suc.IH)
    then show ?thesis using False by (simp add: bit_length.simps [of n])
  qed
qed

lemma bit_length_nonneg: "0 \<le> bit_length n"
  by (induction n rule: bit_length.induct) (simp add: bit_length.simps)

lemma bit_length_1: "bit_length 1 = 1"
  by (simp add: bit_length.simps)

lemma round_half_even_int: "round_half_even (of_int k) = k"
  by (simp add: round_half_even_def)

lemma floor_log2_of_int_le:
  assumes "0 < k" "k < 2 ^ 53"
  shows "floor_log2 (of_int k) \<le> 52"
proof -
  have "bit_length k \<le> 53"
    using bit_length_le [of k 53] assms by simp
  then show ?thesis
    by (simp add: floor_log2_def quotient_of_int bit_length_1 Let_def)
qed

lemma round_double_pos_int_exact:
  assumes "0 < k" "k < 2 ^ 53"
  shows "round_double (of_int k) = Inr (of_int k)"
proof -
  define e where "e = max (floor_log2 (of_int k) - 52) (- 1074)"
  define d where "d = nat (- e)"
  have e: "e \<le> 0"
    using floor_log2_of_int_le [OF assms] by (simp add: e_def)
  have p: "pow2 e = 1 / 2 ^ d"
  proof (cases "e = 0")
    case True
    then show ?thesis by (simp add: pow2_def d_def)
  next
    case False
    then show ?thesis using e by (simp add: pow2_def d_def)
  qed
  have q: "(of_int k :: rat) / pow2 e = of_int (k * 2 ^ d)"
    by (simp add: p)
  have m: "round_half_even (of_int k / pow2 e) = k * 2 ^ d"
    unfolding q by (rule round_half_even_int)
  have r: "of_int (k * 2 ^ d) * pow2 e = (of_int k :: rat)"
    by (simp add: p)
  have "(of_int k :: rat) < of_int (2 ^ 1024)"
    using assms by (simp only: of_int_less_iff) (rule less_trans [of _ "2 ^ 53"], simp_all)
  then have lt: "\<not> pow2 1024 \<le> (of_int k :: rat)"
    by (simp add: pow2_def)
  have nz: "(of_int k :: rat) \<noteq> 0" and ab: "\<bar>of_int k :: rat\<bar> = of_int k"
       and nn: "\<not> (of_int k :: rat) < 0"
    using assms by simp_all
  show ?thesis
    unfolding round_double_def Let_def e_def [symmetric] ab m r
    using nz lt nn by simp
qed

lemma round_double_neg: "round_double (- q) = map_sum id uminus (round_double q)"
  by (simp add: round_double_def Let_def)

lemma round_double_int_exact:
  assumes "\<bar>n\<bar> < 2 ^ 53"
  shows "round_double (of_int n) = Inr (of_int n)"
proof -
  consider "n = 0" | "0 < n" | "n < 0" by linarith
  then show ?thesis
  proof cases
    case 1
    then show ?thesis by (simp add: round_double_def)
  next
    case 2
    then show ?thesis using assms round_double_pos_int_exact [of n] by simp
  next
    case 3
    then have "round_double (of_int (- n)) = Inr (of_int (- n))"
      using assms round_double_pos_int_exact [of "- n"] by simp
    then have "round_double (- of_int n) = Inr (- of_int n)" by simp
    then show ?thesis
      unfolding round_double_neg by (cases "round_double (of_int n)") auto
  qed
qed


lemma bit_length_pow2: "bit_length (2 ^ k) = int k + 1"
proof (induction k)
  case 0
  show ?case by (simp add: bit_length.simps)
next
  case (Suc k)
  have "bit_length (2 ^ Suc k) = 1 + bit_length (2 ^ Suc k div 2)"
    by (subst bit_length.simps) simp
  then show ?case using Suc by simp
qed

lemma floor_log2_of_int:
  "floor_log2 (of_int a) =
     (let l = bit_length a - 1 in if pow2 l \<le> of_int a then l else l - 1)"
  by (simp add: floor_log2_def quotient_of_int bit_length_1)

lemma floor_log2_pow2: "floor_log2 (of_int (2 ^ k)) = int k"
  by (subst floor_log2_of_int) (simp add: bit_length_pow2 pow2_def)

lemma round_double_pos:
  "0 < q \<Longrightarrow> round_double q =
     (let e = max (floor_log2 q - 52) (- 1074);
          r = of_int (round_half_even (q / pow2 e)) * pow2 e
      in if pow2 1024 \<le> r then Inl OverflowError else Inr r)"
  by (simp add: round_double_def Let_def)

lemma round_double_overflow:
  assumes "1024 \<le> k"
  shows "round_double (of_int (2 ^ k)) = Inl OverflowError"
proof -
  have e: "max (floor_log2 (of_int (2 ^ k)) - 52) (- 1074) = int (k - 52)"
    using assms unfolding floor_log2_pow2 by linarith
  have p: "pow2 (int (k - 52)) = 2 ^ (k - 52)" "pow2 1024 = 2 ^ 1024"
    by (simp_all add: pow2_def)
  have d: "(of_int (2 ^ k) :: rat) / 2 ^ (k - 52) = of_int (2 ^ 52)"
    using assms by (simp add: power_diff)
  have m: "(of_int (2 ^ 52) :: rat) * 2 ^ (k - 52) = 2 ^ k"
  proof -
    have "(2::rat) ^ k = 2 ^ (52 + (k - 52))"
      using assms by simp
    also have "\<dots> = 2 ^ 52 * 2 ^ (k - 52)"
      by (rule power_add)
    finally show ?thesis by simp
  qed
  have le: "(2::rat) ^ 1024 \<le> 2 ^ k"
    using assms by (intro power_increasing) simp_all
  have pos: "0 < (of_int (2 ^ k) :: rat)"
    by simp
  show ?thesis
    unfolding round_double_pos [OF pos] Let_def e p d round_half_even_int m
    using le by (simp only: if_True)
qed

lemma bit_length_pos: "0 < n \<Longrightarrow> bit_length n = 1 + bit_length (n div 2)"
  by (subst bit_length.simps) simp

lemma bit_length_nonpos: "n \<le> 0 \<Longrightarrow> bit_length n = 0"
  by (subst bit_length.simps) simp

lemma bit_length_upper: "n < 2 ^ nat (bit_length n)"
proof (induction n rule: bit_length.induct)
  case (1 n)
  show ?case
  proof (cases "n \<le> 0")
    case True
    then show ?thesis by (simp add: bit_length_nonpos)
  next
    case False
    then have ih: "n div 2 < 2 ^ nat (bit_length (n div 2))"
      using "1.IH" by simp
    have "nat (bit_length n) = Suc (nat (bit_length (n div 2)))"
      using False bit_length_nonneg [of "n div 2"] by (simp add: bit_length_pos)
    moreover have "n < 2 * (n div 2 + 1)" by presburger
    ultimately show ?thesis using ih by simp
  qed
qed

lemma bit_length_lower: "0 < n \<Longrightarrow> 2 ^ nat (bit_length n - 1) \<le> n"
proof (induction n rule: bit_length.induct)
  case (1 n)
  show ?case
  proof (cases "n div 2 \<le> 0")
    case True
    then have "bit_length n = 1"
      using "1.prems" by (simp add: bit_length_pos bit_length_nonpos)
    then show ?thesis using "1.prems" by simp
  next
    case False
    then have ih: "2 ^ nat (bit_length (n div 2) - 1) \<le> n div 2"
      using "1.IH" "1.prems" by simp
    have "1 \<le> bit_length (n div 2)"
      using False bit_length_nonneg [of "n div 2 div 2"] by (simp add: bit_length_pos)
    then have "nat (bit_length n - 1) = Suc (nat (bit_length (n div 2) - 1))"
      using "1.prems" by (simp add: bit_length_pos)
    moreover have "2 * (n div 2) \<le> n" by presburger
    ultimately show ?thesis using ih by simp
  qed
qed

lemma pow2_pos: "0 < pow2 e"
  by (simp add: pow2_def)

lemma pow2_mono:
  assumes "e \<le> e'"
  shows "pow2 e \<le> pow2 e'"
proof -
  consider "0 \<le> e" | "e < 0" "0 \<le> e'" | "e' < 0"
    by linarith
  then show ?thesis
  proof cases
    case 1
    then have "(2::rat) ^ nat e \<le> 2 ^ nat e'"
      using assms by (intro power_increasing) simp_all
    then show ?thesis using 1 assms by (simp add: pow2_def)
  next
    case 2
    have "1 / (2::rat) ^ nat (- e) \<le> 1"
      by simp
    also have "\<dots> \<le> 2 ^ nat e'"
      by simp
    finally show ?thesis using 2 by (simp add: pow2_def)
  next
    case 3
    have "(2::rat) ^ nat (- e') \<le> 2 ^ nat (- e)"
      using assms by (intro power_increasing) simp_all
    then have "1 / (2::rat) ^ nat (- e) \<le> 1 / 2 ^ nat (- e')"
      by (intro divide_left_mono) simp_all
    then show ?thesis using 3 assms by (simp add: pow2_def)
  qed
qed

lemma round_half_even_le: "of_int (round_half_even x) \<le> x + 1"
proof -
  have "round_half_even x \<le> \<lfloor>x\<rfloor> + 1"
    by (simp add: round_half_even_def Let_def)
  then have "(of_int (round_half_even x) :: rat) \<le> of_int (\<lfloor>x\<rfloor> + 1)"
    by (simp only: of_int_le_iff)
  then have "(of_int (round_half_even x) :: rat) \<le> of_int \<lfloor>x\<rfloor> + 1"
    by simp
  with of_int_floor_le [of x] show ?thesis
    by linarith
qed




lemma floor_log2_le:
  assumes "0 < q" "q < 2 ^ k"
  shows "floor_log2 q \<le> int k"
proof -
  obtain a b where ab: "quotient_of q = (a, b)"
    by (cases "quotient_of q") auto
  have b: "0 < b" using ab by (rule quotient_of_denom_pos)
  have q: "q = of_int a / of_int b" using ab by (rule quotient_of_div)
  have a: "0 < a"
    using assms(1) b unfolding q by (simp add: zero_less_divide_iff)
  have "(of_int a :: rat) < 2 ^ k * of_int b"
    using assms(2) b unfolding q by (simp add: pos_divide_less_eq)
  then have "(of_int a :: rat) < of_int (2 ^ k * b)"
    by simp
  then have "a < 2 ^ k * b"
    by (simp only: of_int_less_iff)
  also have "\<dots> < 2 ^ k * 2 ^ nat (bit_length b)"
    using bit_length_upper [of b] by simp
  finally have "2 ^ nat (bit_length a - 1) < (2::int) ^ (k + nat (bit_length b))"
    using bit_length_lower [OF a] by (simp add: power_add)
  then have "nat (bit_length a - 1) < k + nat (bit_length b)"
    by (rule power_less_imp_less_exp [rotated]) simp
  then have "bit_length a - bit_length b \<le> int k"
    using bit_length_nonneg [of b] by linarith
  then show ?thesis
    using ab by (simp add: floor_log2_def Let_def)
qed

lemma round_double_total_pos:
  assumes "0 < q" "q < 2 ^ 1000"
  shows "\<exists>r. round_double q = Inr r"
proof -
  define e where "e = max (floor_log2 q - 52) (- 1074)"
  define r where "r = of_int (round_half_even (q / pow2 e)) * pow2 e"
  have "e \<le> 948"
    using floor_log2_le [OF assms] by (simp add: e_def)
  then have p: "pow2 e \<le> 2 ^ 948"
    using pow2_mono [of e 948] by (simp add: pow2_def)
  have "r \<le> (q / pow2 e + 1) * pow2 e"
    unfolding r_def using round_half_even_le [of "q / pow2 e"] pow2_pos [of e]
    by (intro mult_right_mono) simp_all
  also have "\<dots> = q + pow2 e"
    using pow2_pos [of e] by (simp add: distrib_right)
  also have "\<dots> < 2 ^ 1000 + 2 ^ 948"
    using assms(2) p by linarith
  also have "\<dots> < (2::rat) ^ 1024"
    by simp
  finally have "\<not> pow2 1024 \<le> r"
    by (simp add: pow2_def)
  then show ?thesis
    unfolding round_double_pos [OF assms(1)] Let_def e_def [symmetric] r_def [symmetric]
    by simp
qed

lemma round_double_total:
  assumes "\<bar>q\<bar> < 2 ^ 1000"
  shows "\<exists>r. round_double q = Inr r"
proof -
  consider "q = 0" | "0 < q" | "q < 0" by linarith
  then show ?thesis
  proof cases
    case 1
    then show ?thesis by (simp add: round_double_def)
  next
    case 2
    then show ?thesis using assms round_double_total_pos [of q] by simp
  next
    case 3
    then obtain r where "round_double (- q) = Inr r"
      using assms round_double_total_pos [of "- q"] by auto
    then show ?thesis
      unfolding round_double_neg by (cases "round_double q") auto
  qed
qed

lemma fmt_1_5: "format_1f (Finite (3 / 2)) = ''1.5''"
  by code_simp

lemma fmt_1_0: "format_1f (Finite 1) = ''1.0''"
  by code_simp

lemma py_float_int_exact:
  "\<bar>n\<bar> < 2 ^ 53 \<Longrightarrow> py_float p (PInt n) = Inr (Finite (of_int n))"
  by (simp add: round_double_int_exact)

lemma py_float_int_total:
  assumes "\<bar>n\<bar> < 2 ^ 1000"
  shows "\<exists>y. py_float p (PInt n) = Inr (Finite y)"
proof -
  have "(of_int \<bar>n\<bar> :: rat) < of_int (2 ^ 1000)"
    using assms by (simp only: of_int_less_iff)
  then have "\<bar>of_int n :: rat\<bar> < 2 ^ 1000"
    by simp
  then obtain r where "round_double (of_int n) = Inr r"
    using round_double_total by blast
  then show ?thesis by simp
qed

lemma ex1024: "format_file_size p (PInt 1024) = Inr ''1.0 KB''"
  by (simp add: format_file_size_def py_float_int_exact fmt_1_0 del: py_float.simps format_1f.simps)

lemma ex1536: "format_file_size p (PInt 1536) = Inr ''1.5 KB''"
  by (simp add: format_file_size_def py_float_int_exact fmt_1_5 del: py_float.simps format_1f.simps)

lemma exG: "format_file_size p (PInt 1073741824) = Inr ''1.0 GB''"
  by (simp add: format_file_size_def py_float_int_exact fmt_1_0 del: py_float.simps format_1f.simps)

lemma scaled_0: "scaled 0 x = x"
  by (simp add: scaled_def)

lemma scaled_Suc: "scaled (Suc k) x = scaled k (float_div_1024 x)"
  by (simp add: scaled_def funpow_swap1)

lemma scaled_Finite: "scaled k (Finite q) = Finite (q / 1024 ^ k)"
  by (induction k arbitrary: q) (simp_all add: scaled_0 scaled_Suc)

lemma size_loop_select:
  "\<exists>k\<le>length us.
      (\<forall>j<k. \<not> float_lt_1024 (scaled j x))
    \<and> (k < length us \<longrightarrow> float_lt_1024 (scaled k x))
    \<and> size_loop us x = format_1f (scaled k x) @ '' '' @ (us @ [''TB'']) ! k"
proof (induction us arbitrary: x)
  case Nil
  show ?case by (simp add: scaled_0)
next
  case (Cons u us)
  show ?case
  proof (cases "float_lt_1024 x")
    case True
    then have "(\<forall>j<0. \<not> float_lt_1024 (scaled j x))
        \<and> (0 < length (u # us) \<longrightarrow> float_lt_1024 (scaled 0 x))
        \<and> size_loop (u # us) x = format_1f (scaled 0 x) @ '' '' @ ((u # us) @ [''TB'']) ! 0"
      by (simp add: scaled_0)
    then show ?thesis by blast
  next
    case False
    obtain k where k: "k \<le> length us"
      "\<forall>j<k. \<not> float_lt_1024 (scaled j (float_div_1024 x))"
      "k < length us \<longrightarrow> float_lt_1024 (scaled k (float_div_1024 x))"
      "size_loop us (float_div_1024 x) =
         format_1f (scaled k (float_div_1024 x)) @ '' '' @ (us @ [''TB'']) ! k"
      using Cons.IH [of "float_div_1024 x"] by blast
    have a: "\<forall>j<Suc k. \<not> float_lt_1024 (scaled j x)"
    proof (intro allI impI)
      fix j assume "j < Suc k"
      then show "\<not> float_lt_1024 (scaled j x)"
        using False k(2) by (cases j) (simp_all add: scaled_0 scaled_Suc)
    qed
    have b: "Suc k < length (u # us) \<longrightarrow> float_lt_1024 (scaled (Suc k) x)"
      using k(3) by (simp add: scaled_Suc)
    have c: "size_loop (u # us) x =
        format_1f (scaled (Suc k) x) @ '' '' @ ((u # us) @ [''TB'']) ! Suc k"
      using False k(4) by (simp add: scaled_Suc)
    have "Suc k \<le> length (u # us)" using k(1) by simp
    then show ?thesis using a b c by blast
  qed
qed

lemma py_eq_zero_falsy: "py_eq_zero v \<Longrightarrow> \<not> truthy v"
  by (cases v) simp_all

lemma format_file_size_float:
  assumes "truthy v" "py_float p v = Inr x"
  shows "format_file_size p v = Inr (size_loop [''B'', ''KB'', ''MB'', ''GB''] x)"
  using assms py_eq_zero_falsy [of v] by (auto simp: format_file_size_def)

text \<open>
  C5. \<^verbatim>\<open>format_file_size\<close> returns "Unknown" for a falsy or zero input and for a
  non-numeric input, one that \<^verbatim>\<open>float\<close> rejects with \<^verbatim>\<open>ValueError\<close> or \<^verbatim>\<open>TypeError\<close>. For a
  numeric input, which \<^verbatim>\<open>float\<close> converts to \<open>x\<close>, it selects the first unit of B, KB, MB,
  GB at which the value, divided by 1024 once per earlier unit, is below 1024, and TB when
  there is none, and renders the divided value with one decimal place and the unit. Every
  integer of magnitude below \<open>2\<^sup>1\<^sup>0\<^sup>0\<^sup>0\<close> is such a numeric input, an integer of magnitude below
  \<open>2\<^sup>5\<^sup>3\<close> converts to itself, and \<open>k\<close> divisions of a finite value \<open>q\<close> leave \<open>q / 1024\<^sup>k\<close>. The
  four sample values of the specification are as stated.
\<close>

theorem format_file_size_spec:
  "(\<not> truthy v \<or> py_eq_zero v \<longrightarrow> format_file_size p v = Inr ''Unknown'')
   \<and> (truthy v \<and> (py_float p v = Inl TypeError \<or> py_float p v = Inl ValueError)
        \<longrightarrow> format_file_size p v = Inr ''Unknown'')
   \<and> (truthy v \<and> py_float p v = Inr x \<longrightarrow>
        (\<exists>k\<le>4. (\<forall>j<k. \<not> float_lt_1024 (scaled j x))
           \<and> (k < 4 \<longrightarrow> float_lt_1024 (scaled k x))
           \<and> format_file_size p v = Inr (format_1f (scaled k x) @ '' '' @ unit_names ! k)))
   \<and> (\<bar>n\<bar> < 2 ^ 53 \<longrightarrow> py_float p (PInt n) = Inr (Finite (of_int n)))
   \<and> (\<bar>n\<bar> < 2 ^ 1000 \<longrightarrow> (\<exists>y. py_float p (PInt n) = Inr (Finite y)))
   \<and> scaled i (Finite q) = Finite (q / 1024 ^ i)
   \<and> format_file_size p (PInt 0) = Inr ''Unknown''
   \<and> format_file_size p (PInt 1024) = Inr ''1.0 KB''
   \<and> format_file_size p (PInt 1536) = Inr ''1.5 KB''
   \<and> format_file_size p (PInt 1073741824) = Inr ''1.0 GB''"
proof (intro conjI impI)
  assume "\<not> truthy v \<or> py_eq_zero v"
  then show "format_file_size p v = Inr ''Unknown''"
    by (auto simp: format_file_size_def)
next
  assume "truthy v \<and> (py_float p v = Inl TypeError \<or> py_float p v = Inl ValueError)"
  then show "format_file_size p v = Inr ''Unknown''"
    by (auto simp: format_file_size_def)
next
  assume a: "truthy v \<and> py_float p v = Inr x"
  define us where "us = [''B'', ''KB'', ''MB'', ''GB'']"
  have len: "length us = 4" and u: "us @ [''TB''] = unit_names"
    by (simp_all add: us_def unit_names_def)
  have f: "format_file_size p v = Inr (size_loop us x)"
    using a by (simp add: format_file_size_float us_def)
  obtain k where k: "k \<le> length us" "\<forall>j<k. \<not> float_lt_1024 (scaled j x)"
      "k < length us \<longrightarrow> float_lt_1024 (scaled k x)"
      "size_loop us x = format_1f (scaled k x) @ '' '' @ (us @ [''TB'']) ! k"
    using size_loop_select [of us x] by blast
  show "\<exists>k\<le>4. (\<forall>j<k. \<not> float_lt_1024 (scaled j x))
           \<and> (k < 4 \<longrightarrow> float_lt_1024 (scaled k x))
           \<and> format_file_size p v = Inr (format_1f (scaled k x) @ '' '' @ unit_names ! k)"
    using k unfolding f len u by blast
next
  assume "\<bar>n\<bar> < 2 ^ 53"
  then show "py_float p (PInt n) = Inr (Finite (of_int n))"
    by (rule py_float_int_exact)
next
  assume "\<bar>n\<bar> < 2 ^ 1000"
  then show "\<exists>y. py_float p (PInt n) = Inr (Finite y)"
    by (rule py_float_int_total)
next
  show "scaled i (Finite q) = Finite (q / 1024 ^ i)"
    by (rule scaled_Finite)
next
  show "format_file_size p (PInt 0) = Inr ''Unknown''"
    by (simp add: format_file_size_def)
next
  show "format_file_size p (PInt 1024) = Inr ''1.0 KB''"
    by (rule ex1024)
next
  show "format_file_size p (PInt 1536) = Inr ''1.5 KB''"
    by (rule ex1536)
next
  show "format_file_size p (PInt 1073741824) = Inr ''1.0 GB''"
    by (rule exG)
qed

theorem format_file_size_spec_witness:
  "\<not> truthy PNone
   \<and> format_file_size (\<lambda>s. None) PNone = Inr ''Unknown''
   \<and> truthy (PStr ''abc'') \<and> py_float (\<lambda>s. None) (PStr ''abc'') = Inl ValueError
   \<and> format_file_size (\<lambda>s. None) (PStr ''abc'') = Inr ''Unknown''
   \<and> truthy (PInt 2048) \<and> \<bar>2048 :: int\<bar> < 2 ^ 53 \<and> \<bar>2048 :: int\<bar> < 2 ^ 1000
   \<and> py_float (\<lambda>s. None) (PInt 2048) = Inr (Finite 2048)
   \<and> (\<exists>k\<le>4. (\<forall>j<k. \<not> float_lt_1024 (scaled j (Finite 2048)))
         \<and> float_lt_1024 (scaled k (Finite 2048))
         \<and> format_file_size (\<lambda>s. None) (PInt 2048) =
             Inr (format_1f (scaled k (Finite 2048)) @ '' '' @ unit_names ! k))"
proof -
  have e: "py_float (\<lambda>s. None) (PInt 2048) = Inr (Finite 2048)"
    using format_file_size_spec [of "PInt 2048" "\<lambda>s. None" "Finite 2048" 2048]
    by simp
  have t: "truthy (PInt 2048)"
    by simp
  have a: "format_file_size (\<lambda>s. None) PNone = Inr ''Unknown''"
    using format_file_size_spec [of PNone "\<lambda>s. None"] by simp
  have b: "format_file_size (\<lambda>s. None) (PStr ''abc'') = Inr ''Unknown''"
    using format_file_size_spec [of "PStr ''abc''" "\<lambda>s. None"] by simp
  have "\<exists>k\<le>4. (\<forall>j<k. \<not> float_lt_1024 (scaled j (Finite 2048)))
         \<and> (k < 4 \<longrightarrow> float_lt_1024 (scaled k (Finite 2048)))
         \<and> format_file_size (\<lambda>s. None) (PInt 2048) =
             Inr (format_1f (scaled k (Finite 2048)) @ '' '' @ unit_names ! k)"
    using format_file_size_spec [of "PInt 2048" "\<lambda>s. None" "Finite 2048" 2048] e t
    by blast
  then obtain k where k: "k \<le> 4" "\<forall>j<k. \<not> float_lt_1024 (scaled j (Finite 2048))"
      "k < 4 \<longrightarrow> float_lt_1024 (scaled k (Finite 2048))"
      "format_file_size (\<lambda>s. None) (PInt 2048) =
             Inr (format_1f (scaled k (Finite 2048)) @ '' '' @ unit_names ! k)"
    by blast
  have "float_lt_1024 (scaled 1 (Finite 2048))"
    by (simp add: scaled_Finite)
  then have "k < 4"
    using k(1,2) by (cases "k = 4") auto
  then have "float_lt_1024 (scaled k (Finite 2048))"
    using k(3) by simp
  moreover have "py_float (\<lambda>s. None) (PStr ''abc'') = Inl ValueError"
    by simp
  ultimately show ?thesis
    using a b e k by (auto simp del: py_float.simps)
qed

text \<open>
  Outside that range: an integer that is a power of two from \<open>2\<^sup>1\<^sup>0\<^sup>2\<^sup>4\<close> on is too large for a
  float, \<^verbatim>\<open>float\<close> raises \<^verbatim>\<open>OverflowError\<close>, and the \<^verbatim>\<open>except\<close> clause, which names
  \<^verbatim>\<open>ValueError\<close> and \<^verbatim>\<open>TypeError\<close>, lets it pass. The callers of the program pass the size
  of a file and a sum of such sizes, which are far below that.
\<close>

lemma format_file_size_huge:
  assumes "1024 \<le> k"
  shows "format_file_size p (PInt (2 ^ k)) = Inl OverflowError"
proof -
  have "py_float p (PInt (2 ^ k)) = Inl OverflowError"
    using round_double_overflow [OF assms] by (simp only: py_float.simps sum.case)
  moreover have "truthy (PInt (2 ^ k))" "\<not> py_eq_zero (PInt (2 ^ k))"
    by simp_all
  ultimately show ?thesis
    by (simp only: format_file_size_def sum.case error.case simp_thms if_False)
qed

section \<open>Properties of the history store\<close>

lemma save_appends:
  "save_download_history now (PDict info) w =
     Inr (w\<lparr>history_file := Some (load_download_history w @ [PDict (download_record now info)])\<rparr>)"
  by (simp add: save_download_history_def)

lemma load_after_write: "load_download_history (w\<lparr>history_file := Some h\<rparr>) = h"
  by (simp add: load_download_history_def)

text \<open>
  C2. History round-trip: for every metadata dictionary, every clock reading and every
  prior state of the history file (absent, or holding any list), appending the record
  built from them succeeds, and loading afterwards yields the sequence loaded before,
  followed by that record: the last element is the record and the elements before it are
  the earlier sequence. The display sink and the library are not touched.
\<close>

theorem history_round_trip:
  "\<exists>w'. save_download_history now (PDict info) w = Inr w'
      \<and> load_download_history w' = load_download_history w @ [PDict (download_record now info)]
      \<and> last (load_download_history w') = PDict (download_record now info)
      \<and> butlast (load_download_history w') = load_download_history w
      \<and> sink w' = sink w \<and> lib_calls w' = lib_calls w"
  by (simp add: save_appends load_after_write)

theorem history_round_trip_witness:
  "save_download_history ''2024-01-01T00:00:00'' (PDict [(''title'', PStr ''Song'')])
      (initial_world\<lparr>history_file := Some [PInt 7]\<rparr>) =
     Inr (initial_world\<lparr>history_file :=
            Some [PInt 7, PDict (download_record ''2024-01-01T00:00:00'' [(''title'', PStr ''Song'')])]\<rparr>)"
  using history_round_trip [of "''2024-01-01T00:00:00''" "[(''title'', PStr ''Song'')]"
      "initial_world\<lparr>history_file := Some [PInt 7]\<rparr>"]
  by (simp add: save_appends load_download_history_def)

lemma dict_get_absent: "map_of d k = None \<Longrightarrow> dict_get d k dflt = dflt"
  by (simp add: dict_get_def)

lemma dict_get_present: "map_of d k = Some v \<Longrightarrow> dict_get d k dflt = v"
  by (simp add: dict_get_def)

text \<open>
  C9. The record appended to the history has exactly the seven fields title, url,
  duration, uploader, download_date, file_size, format, in this order. A field whose
  metadata key (title, webpage_url, duration, uploader, filesize, ext) is absent holds
  its default: "Unknown", the empty string, 0, "Unknown", 0, "unknown"; a field whose key
  is present holds the metadata value; download_date holds the clock reading. This is
  the record that \<^verbatim>\<open>save_download_history\<close> appends, whatever the metadata dictionary.
\<close>

theorem download_record_fields:
  "map fst (download_record now info) =
     [''title'', ''url'', ''duration'', ''uploader'', ''download_date'', ''file_size'', ''format'']
   \<and> (map_of info ''title'' = None \<longrightarrow>
         map_of (download_record now info) ''title'' = Some (PStr ''Unknown''))
   \<and> (map_of info ''webpage_url'' = None \<longrightarrow>
         map_of (download_record now info) ''url'' = Some (PStr []))
   \<and> (map_of info ''duration'' = None \<longrightarrow>
         map_of (download_record now info) ''duration'' = Some (PInt 0))
   \<and> (map_of info ''uploader'' = None \<longrightarrow>
         map_of (download_record now info) ''uploader'' = Some (PStr ''Unknown''))
   \<and> (map_of info ''filesize'' = None \<longrightarrow>
         map_of (download_record now info) ''file_size'' = Some (PInt 0))
   \<and> (map_of info ''ext'' = None \<longrightarrow>
         map_of (download_record now info) ''format'' = Some (PStr ''unknown''))
   \<and> map_of (download_record now info) ''download_date'' = Some (PStr now)
   \<and> (map_of info ''title'' = Some v \<longrightarrow> map_of (download_record now info) ''title'' = Some v)
   \<and> (map_of info ''webpage_url'' = Some v \<longrightarrow> map_of (download_record now info) ''url'' = Some v)
   \<and> (map_of info ''duration'' = Some v \<longrightarrow>
         map_of (download_record now info) ''duration'' = Some v)
   \<and> (map_of info ''uploader'' = Some v \<longrightarrow>
         map_of (download_record now info) ''uploader'' = Some v)
   \<and> (map_of info ''filesize'' = Some v \<longrightarrow>
         map_of (download_record now info) ''file_size'' = Some v)
   \<and> (map_of info ''ext'' = Some v \<longrightarrow> map_of (download_record now info) ''format'' = Some v)
   \<and> (\<exists>w'. save_download_history now (PDict info) w = Inr w'
          \<and> load_download_history w' =
              load_download_history w @ [PDict (download_record now info)])"
  by (simp add: download_record_def dict_get_def save_appends load_after_write)

theorem download_record_fields_witness:
  "map_of [(''title'', PStr ''Song''), (''ext'', PStr ''mp4'')] ''title'' = Some (PStr ''Song'')
   \<and> map_of [(''title'', PStr ''Song''), (''ext'', PStr ''mp4'')] ''webpage_url'' = None
   \<and> map_of [(''title'', PStr ''Song''), (''ext'', PStr ''mp4'')] ''duration'' = None
   \<and> map_of [(''title'', PStr ''Song''), (''ext'', PStr ''mp4'')] ''uploader'' = None
   \<and> map_of [(''title'', PStr ''Song''), (''ext'', PStr ''mp4'')] ''filesize'' = None
   \<and> map_of [(''title'', PStr ''Song''), (''ext'', PStr ''mp4'')] ''ext'' = Some (PStr ''mp4'')
   \<and> download_record ''2024-01-01T00:00:00'' [(''title'', PStr ''Song''), (''ext'', PStr ''mp4'')] =
       [(''title'', PStr ''Song''), (''url'', PStr []), (''duration'', PInt 0),
        (''uploader'', PStr ''Unknown''), (''download_date'', PStr ''2024-01-01T00:00:00''),
        (''file_size'', PInt 0), (''format'', PStr ''mp4'')]"
  using download_record_fields
    [of "''2024-01-01T00:00:00''" "[(''title'', PStr ''Song''), (''ext'', PStr ''mp4'')]"]
  by (simp add: download_record_def dict_get_def)

section \<open>Properties of the search\<close>

lemma try_bind_Inr: "try_bind (Inr x) f = f x"
  by (simp add: try_bind_def)

lemma try_bind_Inl: "try_bind (Inl e) f = Inl e"
  by (simp add: try_bind_def)

lemma try_bind_eq_Inr:
  "try_bind r f = Inr y \<longleftrightarrow> (\<exists>x. r = Inr x \<and> f x = Inr y)"
  by (cases r) (simp_all add: try_bind_def)

lemma dict_set_other: "k' \<noteq> k \<Longrightarrow> map_of (dict_set d k v) k' = map_of d k'"
  by (induction d) auto

lemma dict_set_same: "map_of (dict_set d k v) k = Some v"
  by (induction d) auto

lemma dict_set_frame:
  "filter (\<lambda>p. fst p \<noteq> k) (dict_set d k v) = filter (\<lambda>p. fst p \<noteq> k) d"
  by (induction d) auto

lemma starts_with_http_nonempty: "starts_with_http s \<Longrightarrow> s \<noteq> []"
  by (auto simp: starts_with_http_def)

lemma resolve_entry_falsy: "\<not> truthy e \<Longrightarrow> resolve_entry rp e = Inr e"
  by (simp add: resolve_entry_def)

lemma resolve_entry_no_id: "\<not> has_id d \<Longrightarrow> resolve_entry rp (PDict d) = Inr (PDict d)"
  by (simp add: resolve_entry_def has_id_def)

lemma resolve_entry_http: "has_http_url d \<Longrightarrow> resolve_entry rp (PDict d) = Inr (PDict d)"
  by (auto simp: resolve_entry_def has_http_url_def Let_def
      dest: starts_with_http_nonempty split: pyval.splits)

lemma resolve_entry_rewrite:
  "d \<noteq> [] \<Longrightarrow> has_id d \<Longrightarrow> lacks_http_url d \<Longrightarrow>
   resolve_entry rp (PDict d) =
     Inr (PDict (dict_set d ''url'' (PStr (watch_url rp (dict_get d ''id'' PNone)))))"
  by (auto simp: resolve_entry_def has_id_def lacks_http_url_def Let_def split: pyval.splits)

lemma resolve_entry_bad_url:
  "d \<noteq> [] \<Longrightarrow> has_id d \<Longrightarrow> \<not> has_http_url d \<Longrightarrow> \<not> lacks_http_url d \<Longrightarrow>
   resolve_entry rp (PDict d) = Inl AttributeError"
  by (auto simp: resolve_entry_def has_id_def has_http_url_def lacks_http_url_def Let_def
      split: pyval.splits)

lemma resolve_entry_not_dict:
  "truthy e \<Longrightarrow> \<forall>d. e \<noteq> PDict d \<Longrightarrow> resolve_entry rp e = Inl AttributeError"
  by (cases e) (simp_all add: resolve_entry_def)

lemma resolve_entry_cases:
  assumes "resolve_entry rp e = Inr e'"
  shows "e' = e \<or> (\<exists>d. e = PDict d \<and> d \<noteq> [] \<and> has_id d \<and> lacks_http_url d
            \<and> e' = PDict (dict_set d ''url'' (PStr (watch_url rp (dict_get d ''id'' PNone)))))"
proof (cases "truthy e")
  case False
  then show ?thesis using assms by (simp add: resolve_entry_falsy)
next
  case True
  then obtain d where d: "e = PDict d"
    using assms resolve_entry_not_dict [of e rp] by auto
  have ne: "d \<noteq> []" using True d by simp
  show ?thesis
  proof (cases "has_id d")
    case False
    then show ?thesis using assms d by (simp add: resolve_entry_no_id)
  next
    case id: True
    show ?thesis
    proof (cases "has_http_url d")
      case True
      then show ?thesis using assms d by (simp add: resolve_entry_http)
    next
      case False
      then have "lacks_http_url d"
        using assms d ne id resolve_entry_bad_url [of d rp] by auto
      then show ?thesis
        using assms d ne id by (simp add: resolve_entry_rewrite)
    qed
  qed
qed

lemma resolve_entry_ok: "entry_ok e \<Longrightarrow> \<exists>e'. resolve_entry rp e = Inr e'"
proof (cases e)
  case (PDict d)
  assume "entry_ok e"
  then consider "d = []" | "\<not> has_id d" | "has_http_url d" | "d \<noteq> []" "has_id d" "lacks_http_url d"
    using PDict by auto
  then show ?thesis
  proof cases
    case 1
    then show ?thesis using PDict by (simp add: resolve_entry_falsy)
  next
    case 2
    then show ?thesis using PDict by (simp add: resolve_entry_no_id)
  next
    case 3
    then show ?thesis using PDict by (simp add: resolve_entry_http)
  next
    case 4
    then show ?thesis using PDict by (simp add: resolve_entry_rewrite)
  qed
qed (simp_all add: resolve_entry_falsy)

lemma resolve_entries_nth:
  "resolve_entries rp es = Inr es' \<Longrightarrow>
   length es' = length es \<and> (\<forall>i<length es. resolve_entry rp (es ! i) = Inr (es' ! i))"
proof (induction es arbitrary: es')
  case Nil
  then show ?case by simp
next
  case (Cons e es)
  from Cons.prems obtain e1 es1 where
    e1: "resolve_entry rp e = Inr e1" and es1: "resolve_entries rp es = Inr es1"
    and eq: "es' = e1 # es1"
    by (auto simp: try_bind_eq_Inr)
  have ih: "length es1 = length es \<and> (\<forall>i<length es. resolve_entry rp (es ! i) = Inr (es1 ! i))"
    using Cons.IH [OF es1] .
  show ?case
  proof (intro conjI allI impI)
    show "length es' = length (e # es)" using ih eq by simp
  next
    fix i assume "i < length (e # es)"
    then show "resolve_entry rp ((e # es) ! i) = Inr (es' ! i)"
      using e1 ih eq by (cases i) simp_all
  qed
qed

lemma resolve_entries_ok:
  "\<forall>e\<in>set es. entry_ok e \<Longrightarrow> \<exists>es'. resolve_entries rp es = Inr es'"
proof (induction es)
  case Nil
  show ?case by simp
next
  case (Cons e es)
  obtain e1 where "resolve_entry rp e = Inr e1"
    using Cons.prems resolve_entry_ok [of e rp] by auto
  moreover obtain es1 where "resolve_entries rp es = Inr es1"
    using Cons by auto
  ultimately show ?case by (simp add: try_bind_Inr)
qed

text \<open>
  C10. The URL-resolution pass over search results. When every entry is well typed the
  pass completes. When it completes it returns as many entries as it was given, and at
  each position: an entry that is false is unchanged; an entry without an id is
  unchanged; an entry whose URL starts with \<^verbatim>\<open>http\<close> is unchanged, its URL with it; and
  an entry that is changed has an id and lacked a direct URL, its url field now holds the
  watch URL of its id, and dropping the url field from the entry before and after leaves
  the same fields with the same values in the same order.
\<close>

theorem url_resolution_frame:
  "((\<forall>e\<in>set es. entry_ok e) \<longrightarrow> (\<exists>es'. resolve_entries rp es = Inr es'))
   \<and> (resolve_entries rp es = Inr es' \<longrightarrow>
        length es' = length es
      \<and> (\<forall>i<length es.
           (\<not> truthy (es ! i) \<longrightarrow> es' ! i = es ! i)
         \<and> (\<forall>d. es ! i = PDict d \<and> \<not> has_id d \<longrightarrow> es' ! i = es ! i)
         \<and> (\<forall>d. es ! i = PDict d \<and> has_http_url d \<longrightarrow> es' ! i = es ! i)
         \<and> (es' ! i \<noteq> es ! i \<longrightarrow>
              (\<exists>d d'. es ! i = PDict d \<and> es' ! i = PDict d' \<and> has_id d \<and> lacks_http_url d
                 \<and> map_of d' ''url'' = Some (PStr (watch_url rp (dict_get d ''id'' PNone)))
                 \<and> filter (\<lambda>p. fst p \<noteq> ''url'') d' = filter (\<lambda>p. fst p \<noteq> ''url'') d))))"
proof (intro conjI impI)
  assume "\<forall>e\<in>set es. entry_ok e"
  then show "\<exists>es'. resolve_entries rp es = Inr es'"
    by (rule resolve_entries_ok)
next
  assume r: "resolve_entries rp es = Inr es'"
  show "length es' = length es"
    using resolve_entries_nth [OF r] by simp
next
  assume r: "resolve_entries rp es = Inr es'"
  show "\<forall>i<length es.
           (\<not> truthy (es ! i) \<longrightarrow> es' ! i = es ! i)
         \<and> (\<forall>d. es ! i = PDict d \<and> \<not> has_id d \<longrightarrow> es' ! i = es ! i)
         \<and> (\<forall>d. es ! i = PDict d \<and> has_http_url d \<longrightarrow> es' ! i = es ! i)
         \<and> (es' ! i \<noteq> es ! i \<longrightarrow>
              (\<exists>d d'. es ! i = PDict d \<and> es' ! i = PDict d' \<and> has_id d \<and> lacks_http_url d
                 \<and> map_of d' ''url'' = Some (PStr (watch_url rp (dict_get d ''id'' PNone)))
                 \<and> filter (\<lambda>p. fst p \<noteq> ''url'') d' = filter (\<lambda>p. fst p \<noteq> ''url'') d))"
  proof (intro allI impI)
    fix i assume "i < length es"
    then have e: "resolve_entry rp (es ! i) = Inr (es' ! i)"
      using resolve_entries_nth [OF r] by simp
    have a: "\<not> truthy (es ! i) \<longrightarrow> es' ! i = es ! i"
      using e by (auto simp: resolve_entry_falsy)
    have b: "\<forall>d. es ! i = PDict d \<and> \<not> has_id d \<longrightarrow> es' ! i = es ! i"
      using e by (auto simp: resolve_entry_no_id)
    have c: "\<forall>d. es ! i = PDict d \<and> has_http_url d \<longrightarrow> es' ! i = es ! i"
      using e by (auto simp: resolve_entry_http)
    have d: "es' ! i \<noteq> es ! i \<longrightarrow>
              (\<exists>d d'. es ! i = PDict d \<and> es' ! i = PDict d' \<and> has_id d \<and> lacks_http_url d
                 \<and> map_of d' ''url'' = Some (PStr (watch_url rp (dict_get d ''id'' PNone)))
                 \<and> filter (\<lambda>p. fst p \<noteq> ''url'') d' = filter (\<lambda>p. fst p \<noteq> ''url'') d)"
      using resolve_entry_cases [OF e] by (auto simp: dict_set_same dict_set_frame)
    show "(\<not> truthy (es ! i) \<longrightarrow> es' ! i = es ! i)
         \<and> (\<forall>d. es ! i = PDict d \<and> \<not> has_id d \<longrightarrow> es' ! i = es ! i)
         \<and> (\<forall>d. es ! i = PDict d \<and> has_http_url d \<longrightarrow> es' ! i = es ! i)
         \<and> (es' ! i \<noteq> es ! i \<longrightarrow>
              (\<exists>d d'. es ! i = PDict d \<and> es' ! i = PDict d' \<and> has_id d \<and> lacks_http_url d
                 \<and> map_of d' ''url'' = Some (PStr (watch_url rp (dict_get d ''id'' PNone)))
                 \<and> filter (\<lambda>p. fst p \<noteq> ''url'') d' = filter (\<lambda>p. fst p \<noteq> ''url'') d))"
      using a b c d by blast
  qed
qed

theorem url_resolution_frame_witness:
  "entry_ok PNone
   \<and> entry_ok (PDict [(''id'', PStr ''abc''), (''title'', PStr ''T'')])
   \<and> entry_ok (PDict [(''id'', PStr ''x''), (''url'', PStr ''https://e'')])
   \<and> entry_ok (PDict [(''url'', PStr ''e'')])
   \<and> resolve_entries (\<lambda>v. [])
        [PNone,
         PDict [(''id'', PStr ''abc''), (''title'', PStr ''T'')],
         PDict [(''id'', PStr ''x''), (''url'', PStr ''https://e'')],
         PDict [(''url'', PStr ''e'')]] =
       Inr [PNone,
            PDict [(''id'', PStr ''abc''), (''title'', PStr ''T''),
                   (''url'', PStr ''https://www.youtube.com/watch?v=abc'')],
            PDict [(''id'', PStr ''x''), (''url'', PStr ''https://e'')],
            PDict [(''url'', PStr ''e'')]]"
  using url_resolution_frame [of
      "[PNone,
        PDict [(''id'', PStr ''abc''), (''title'', PStr ''T'')],
        PDict [(''id'', PStr ''x''), (''url'', PStr ''https://e'')],
        PDict [(''url'', PStr ''e'')]]" "\<lambda>v. []"]
  by (simp add: has_id_def has_http_url_def lacks_http_url_def dict_get_def
      starts_with_http_def resolve_entry_def try_bind_def watch_url_def)

lemma search_result:
  assumes "extract_flat lib (lib_calls w) (search_request q m t) = Inr (PDict r)"
    and "dict_get r ''entries'' (PList []) = PList es"
  shows "fst (search_youtube_advanced rp lib q m t w) =
           (case resolve_entries rp es of Inl e \<Rightarrow> PList [] | Inr xs \<Rightarrow> PList xs)"
  using assms
  by (cases "resolve_entries rp es")
     (simp_all add: search_youtube_advanced_def Let_def try_bind_def ensure_urls_def)

lemma has_id_dict_set_url:
  "dict_get (dict_set d ''url'' v) ''id'' dflt = dict_get d ''id'' dflt"
  by (simp add: dict_get_def dict_set_other)

text \<open>
  C6 (as amended). Let the library answer the flat query with a dictionary whose entries
  are a list, and let the search return a list. Then every returned entry stands at the
  position of a library entry, and when that library entry has an id and lacks a direct
  URL, the returned entry has the same id and its url field is
  \<^verbatim>\<open>https://www.youtube.com/watch?v=\<close> followed by the rendering of that id, which for a
  string id is the id itself. When all library entries are well typed the search returns
  one entry for each of them.
\<close>

theorem search_synthesizes_url:
  assumes "extract_flat lib (lib_calls w) (search_request q m t) = Inr (PDict r)"
    and "dict_get r ''entries'' (PList []) = PList es"
    and "fst (search_youtube_advanced rp lib q m t w) = PList es'"
  shows "(\<forall>i<length es'. i < length es
           \<and> (\<forall>d. es ! i = PDict d \<and> has_id d \<and> lacks_http_url d \<longrightarrow>
                (\<exists>d'. es' ! i = PDict d'
                   \<and> dict_get d' ''id'' PNone = dict_get d ''id'' PNone
                   \<and> dict_get d' ''url'' PNone = PStr (watch_url rp (dict_get d' ''id'' PNone)))))
         \<and> ((\<forall>e\<in>set es. entry_ok e) \<longrightarrow> length es' = length es)
         \<and> watch_url rp (PStr s) = ''https://www.youtube.com/watch?v='' @ s"
proof (cases "resolve_entries rp es")
  case (Inl e)
  then have "es' = []"
    using search_result [OF assms(1,2), of rp] assms(3) by simp
  moreover have "\<not> (\<forall>e\<in>set es. entry_ok e)"
    using Inl resolve_entries_ok [of es rp] by auto
  ultimately show ?thesis by (auto simp: watch_url_def)
next
  case (Inr xs)
  then have eq: "es' = xs"
    using search_result [OF assms(1,2), of rp] assms(3) by simp
  have n: "length es' = length es"
      "\<forall>i<length es. resolve_entry rp (es ! i) = Inr (es' ! i)"
    using resolve_entries_nth [of rp es es'] Inr eq by simp_all
  have "\<forall>i<length es'. i < length es
           \<and> (\<forall>d. es ! i = PDict d \<and> has_id d \<and> lacks_http_url d \<longrightarrow>
                (\<exists>d'. es' ! i = PDict d'
                   \<and> dict_get d' ''id'' PNone = dict_get d ''id'' PNone
                   \<and> dict_get d' ''url'' PNone = PStr (watch_url rp (dict_get d' ''id'' PNone))))"
  proof (intro allI impI conjI)
    fix i assume i: "i < length es'"
    then show "i < length es" using n by simp
  next
    fix i d
    assume i: "i < length es'" and d: "es ! i = PDict d \<and> has_id d \<and> lacks_http_url d"
    have ne: "d \<noteq> []" using d by (auto simp: has_id_def dict_get_def)
    have "es' ! i = PDict (dict_set d ''url'' (PStr (watch_url rp (dict_get d ''id'' PNone))))"
      using n i d ne resolve_entry_rewrite [of d rp] by auto
    then show "\<exists>d'. es' ! i = PDict d'
                   \<and> dict_get d' ''id'' PNone = dict_get d ''id'' PNone
                   \<and> dict_get d' ''url'' PNone = PStr (watch_url rp (dict_get d' ''id'' PNone))"
      by (simp add: has_id_dict_set_url) (simp add: dict_get_def dict_set_same)
  qed
  then show ?thesis using n by (simp add: watch_url_def)
qed

lemma flat_library_search:
  "fst (search_youtube_advanced rp (flat_library es) q m t initial_world) =
     (case resolve_entries rp es of Inl e \<Rightarrow> PList [] | Inr xs \<Rightarrow> PList xs)"
  by (rule search_result [where r = "[(''entries'', PList es)]"])
     (simp_all add: flat_library_def dict_get_def)

theorem search_synthesizes_url_witness:
  "extract_flat (flat_library [PDict [(''id'', PStr ''abc'')]]) (lib_calls initial_world)
      (search_request ''cats'' 10 ''video'') = Inr (PDict [(''entries'', PList [PDict [(''id'', PStr ''abc'')]])])
   \<and> has_id [(''id'', PStr ''abc'')] \<and> lacks_http_url [(''id'', PStr ''abc'')]
   \<and> fst (search_youtube_advanced (\<lambda>v. []) (flat_library [PDict [(''id'', PStr ''abc'')]])
            ''cats'' 10 ''video'' initial_world) =
       PList [PDict [(''id'', PStr ''abc''),
                     (''url'', PStr ''https://www.youtube.com/watch?v=abc'')]]"
proof -
  have f: "fst (search_youtube_advanced (\<lambda>v. []) (flat_library [PDict [(''id'', PStr ''abc'')]])
            ''cats'' 10 ''video'' initial_world) =
       PList [PDict [(''id'', PStr ''abc''),
                     (''url'', PStr ''https://www.youtube.com/watch?v=abc'')]]"
    by (simp add: flat_library_search resolve_entry_def try_bind_def dict_get_def watch_url_def)
  have e: "extract_flat (flat_library [PDict [(''id'', PStr ''abc'')]]) (lib_calls initial_world)
      (search_request ''cats'' 10 ''video'') = Inr (PDict [(''entries'', PList [PDict [(''id'', PStr ''abc'')]])])"
    by (simp add: flat_library_def)
  have g: "dict_get [(''entries'', PList [PDict [(''id'', PStr ''abc'')]])] ''entries'' (PList []) =
      PList [PDict [(''id'', PStr ''abc'')]]"
    by (simp add: dict_get_def)
  have h: "has_id [(''id'', PStr ''abc'')]" "lacks_http_url [(''id'', PStr ''abc'')]"
    by (simp_all add: has_id_def lacks_http_url_def dict_get_def)
  show ?thesis
    using search_synthesizes_url [OF e g f] e f h by simp
qed

text \<open>
  The claim as the specification states it fails at an entry that lacks a URL and has no
  id, and at an entry whose id is the empty string: the guard \<^verbatim>\<open>entry.get('id')\<close> skips
  both, and the search returns them as they were, without a url field.
\<close>

theorem search_entry_without_id:
  "fst (search_youtube_advanced (\<lambda>v. [])
          (flat_library [PDict [(''title'', PStr ''T'')], PDict [(''id'', PStr [])]])
          ''cats'' 10 ''video'' initial_world) =
     PList [PDict [(''title'', PStr ''T'')], PDict [(''id'', PStr [])]]
   \<and> map_of [(''title'', PStr ''T'')] ''url'' = None
   \<and> map_of [(''id'', PStr [])] ''url'' = None"
  by (simp add: flat_library_search resolve_entry_def try_bind_def dict_get_def)

text \<open>
  C7. In playlist mode the request sent to the library is the query string itself, and
  the whole outcome of the search (the returned entries, the messages, the library
  call) is the same for any two values of \<^verbatim>\<open>max_results\<close>, the library being the same.
\<close>

theorem playlist_ignores_max_results:
  "search_youtube_advanced rp lib q m1 ''playlist'' w =
     search_youtube_advanced rp lib q m2 ''playlist'' w
   \<and> search_request q m1 ''playlist'' = q
   \<and> lib_calls (snd (search_youtube_advanced rp lib q m1 ''playlist'' w)) =
       lib_calls w @ [ExtractFlat q]"
proof -
  have r: "\<And>m. search_request q m ''playlist'' = q"
    by (simp add: search_request_def)
  have c: "\<And>m. lib_calls (snd (search_youtube_advanced rp lib q m ''playlist'' w)) =
       lib_calls w @ [ExtractFlat q]"
    unfolding search_youtube_advanced_def Let_def r
    by (simp add: emit_def split: sum.splits)
  have "search_youtube_advanced rp lib q m1 ''playlist'' w =
     search_youtube_advanced rp lib q m2 ''playlist'' w"
    unfolding search_youtube_advanced_def r ..
  then show ?thesis using r c by simp
qed

theorem playlist_ignores_max_results_witness:
  "search_youtube_advanced (\<lambda>v. []) (flat_library [PDict [(''id'', PStr ''abc'')]])
       ''PL123'' 5 ''playlist'' initial_world =
     search_youtube_advanced (\<lambda>v. []) (flat_library [PDict [(''id'', PStr ''abc'')]])
       ''PL123'' 20 ''playlist'' initial_world
   \<and> search_request ''PL123'' 5 ''playlist'' = ''PL123''"
  using playlist_ignores_max_results
    [of "\<lambda>v. []" "flat_library [PDict [(''id'', PStr ''abc'')]]" "''PL123''" 5 initial_world 20]
  by simp

section \<open>Properties of the download\<close>

lemma ydl_download_result:
  "fst (ydl_download lib opts hooked url w) =
     (case transfer lib (lib_calls w) opts url of
        (events, outcome) \<Rightarrow>
          if hooked then (case snd (run_hooks events) of Some e \<Rightarrow> Inl e | None \<Rightarrow> outcome)
          else outcome)"
  by (auto simp: ydl_download_def Let_def split: prod.splits option.splits)

lemma ydl_download_frame:
  "history_file (snd (ydl_download lib opts hooked url w)) = history_file w
   \<and> lib_calls (snd (ydl_download lib opts hooked url w)) = lib_calls w @ [Download opts url]"
  by (auto simp: ydl_download_def Let_def emit_def split: prod.splits option.splits)

lemma ydl_download_succeeds:
  "transfer_succeeds lib ao q pc url w \<longleftrightarrow>
   fst (ydl_download lib (ydl_opts ao q) pc url (snd (get_video_info lib url w))) = Inr ()"
  by (auto simp: transfer_succeeds_def ydl_download_result get_video_info_def
      split: prod.splits option.splits)

lemma load_history_cong:
  "history_file w' = history_file w \<Longrightarrow> load_download_history w' = load_download_history w"
  by (simp add: load_download_history_def)

lemma download_info_fails:
  assumes "extract_info lib (lib_calls w) url = Inl e"
  shows "\<exists>w'. download_video_advanced lib (PStr url) ao q pc w = Inr (False, w')
           \<and> history_file w' = history_file w
           \<and> lib_calls w' = lib_calls w @ [ExtractInfo url]"
  using assms
  by (simp add: download_video_advanced_def try_bind_Inr get_video_info_def emit_def)

lemma download_transfer_fails:
  assumes "extract_info lib (lib_calls w) url = Inr v"
    and "\<not> transfer_succeeds lib ao q pc url w"
  shows "\<exists>w'. download_video_advanced lib (PStr url) ao q pc w = Inr (False, w')
           \<and> history_file w' = history_file w
           \<and> lib_calls w' = lib_calls w @ [ExtractInfo url, Download (ydl_opts ao q) url]"
proof -
  define w1 where "w1 = snd (get_video_info lib url w)"
  have g: "get_video_info lib url w = (Inr v, w1)"
    using assms(1) by (simp add: get_video_info_def w1_def)
  have w1: "history_file w1 = history_file w" "lib_calls w1 = lib_calls w @ [ExtractInfo url]"
    by (simp_all add: w1_def get_video_info_def)
  obtain r w2 where y: "ydl_download lib (ydl_opts ao q) pc url w1 = (r, w2)"
    by (cases "ydl_download lib (ydl_opts ao q) pc url w1") auto
  have "r \<noteq> Inr ()"
    using assms(2) y unfolding ydl_download_succeeds w1_def [symmetric] by simp
  then obtain e where r: "r = Inl e"
    by (cases r) auto
  have w2: "history_file w2 = history_file w"
      "lib_calls w2 = lib_calls w @ [ExtractInfo url, Download (ydl_opts ao q) url]"
    using ydl_download_frame [of lib "ydl_opts ao q" pc url w1] y w1 by simp_all
  show ?thesis
    using g y r w2
    by (simp add: download_video_advanced_def try_bind_Inr emit_def)
qed

lemma download_succeeds:
  assumes "extract_info lib (lib_calls w) url = Inr (PDict info)"
    and "transfer_succeeds lib ao q pc url w"
  shows "\<exists>w'. download_video_advanced lib (PStr url) ao q pc w = Inr (True, w')
           \<and> history_file w' =
               Some (load_download_history w @
                 [PDict (download_record
                    (now_iso lib (lib_calls w @ [ExtractInfo url, Download (ydl_opts ao q) url]))
                    info)])
           \<and> lib_calls w' = lib_calls w @ [ExtractInfo url, Download (ydl_opts ao q) url]"
proof -
  define w1 where "w1 = snd (get_video_info lib url w)"
  have g: "get_video_info lib url w = (Inr (PDict info), w1)"
    using assms(1) by (simp add: get_video_info_def w1_def)
  have w1: "history_file w1 = history_file w" "lib_calls w1 = lib_calls w @ [ExtractInfo url]"
    by (simp_all add: w1_def get_video_info_def)
  obtain r w2 where y: "ydl_download lib (ydl_opts ao q) pc url w1 = (r, w2)"
    by (cases "ydl_download lib (ydl_opts ao q) pc url w1") auto
  have r: "r = Inr ()"
    using assms(2) y unfolding ydl_download_succeeds w1_def [symmetric] by simp
  have w2: "history_file w2 = history_file w"
      "lib_calls w2 = lib_calls w @ [ExtractInfo url, Download (ydl_opts ao q) url]"
    using ydl_download_frame [of lib "ydl_opts ao q" pc url w1] y w1 by simp_all
  have l: "load_download_history w2 = load_download_history w"
    using w2(1) by (rule load_history_cong)
  show ?thesis
    using g y r w2 l
    by (simp add: download_video_advanced_def try_bind_Inr save_download_history_def)
qed

text \<open>
  C1. For every URL (a string), every library and every state: when the metadata fetch
  raises, \<^verbatim>\<open>download_video_advanced\<close> returns False and the history is unchanged; when
  the metadata fetch returns a metadata dictionary and the transfer succeeds, it returns
  True and the history is the earlier one followed by exactly one record, built from the
  metadata fetched before the transfer and the clock reading after it; when the metadata
  fetch returns and the transfer fails, it returns False and the history is unchanged.
\<close>

theorem download_outcome:
  "(extract_info lib (lib_calls w) url = Inl e \<longrightarrow>
      (\<exists>w'. download_video_advanced lib (PStr url) ao q pc w = Inr (False, w')
         \<and> history_file w' = history_file w
         \<and> load_download_history w' = load_download_history w))
   \<and> (extract_info lib (lib_calls w) url = Inr (PDict info)
        \<and> transfer_succeeds lib ao q pc url w \<longrightarrow>
      (\<exists>w'. download_video_advanced lib (PStr url) ao q pc w = Inr (True, w')
         \<and> load_download_history w' =
             load_download_history w @
               [PDict (download_record
                  (now_iso lib (lib_calls w @ [ExtractInfo url, Download (ydl_opts ao q) url]))
                  info)]))
   \<and> (extract_info lib (lib_calls w) url = Inr v
        \<and> \<not> transfer_succeeds lib ao q pc url w \<longrightarrow>
      (\<exists>w'. download_video_advanced lib (PStr url) ao q pc w = Inr (False, w')
         \<and> history_file w' = history_file w
         \<and> load_download_history w' = load_download_history w))"
proof (intro conjI impI)
  assume "extract_info lib (lib_calls w) url = Inl e"
  then obtain w' where r: "download_video_advanced lib (PStr url) ao q pc w = Inr (False, w')"
      and h: "history_file w' = history_file w"
    using download_info_fails [of lib w url e ao q pc] by blast
  show "\<exists>w'. download_video_advanced lib (PStr url) ao q pc w = Inr (False, w')
         \<and> history_file w' = history_file w
         \<and> load_download_history w' = load_download_history w"
    using r h load_history_cong [OF h] by blast
next
  assume "extract_info lib (lib_calls w) url = Inr (PDict info)
        \<and> transfer_succeeds lib ao q pc url w"
  then obtain w' where r: "download_video_advanced lib (PStr url) ao q pc w = Inr (True, w')"
      and h: "history_file w' =
               Some (load_download_history w @
                 [PDict (download_record
                    (now_iso lib (lib_calls w @ [ExtractInfo url, Download (ydl_opts ao q) url]))
                    info)])"
    using download_succeeds [of lib w url info ao q pc] by blast
  have "load_download_history w' =
             load_download_history w @
               [PDict (download_record
                  (now_iso lib (lib_calls w @ [ExtractInfo url, Download (ydl_opts ao q) url]))
                  info)]"
    unfolding load_download_history_def [of w'] h by simp
  then show "\<exists>w'. download_video_advanced lib (PStr url) ao q pc w = Inr (True, w')
         \<and> load_download_history w' =
             load_download_history w @
               [PDict (download_record
                  (now_iso lib (lib_calls w @ [ExtractInfo url, Download (ydl_opts ao q) url]))
                  info)]"
    using r by blast
next
  assume "extract_info lib (lib_calls w) url = Inr v
        \<and> \<not> transfer_succeeds lib ao q pc url w"
  then obtain w' where r: "download_video_advanced lib (PStr url) ao q pc w = Inr (False, w')"
      and h: "history_file w' = history_file w"
    using download_transfer_fails [of lib w url v ao q pc] by blast
  show "\<exists>w'. download_video_advanced lib (PStr url) ao q pc w = Inr (False, w')
         \<and> history_file w' = history_file w
         \<and> load_download_history w' = load_download_history w"
    using r h load_history_cong [OF h] by blast
qed

theorem download_outcome_witness:
  "extract_info example_library (lib_calls initial_world) ''bad'' = Inl (LibraryError ''unavailable'')
   \<and> (\<exists>w'. download_video_advanced example_library (PStr ''bad'') False ''best'' True initial_world
              = Inr (False, w')
          \<and> load_download_history w' = [])
   \<and> extract_info example_library (lib_calls initial_world) ''ok'' =
        Inr (PDict [(''title'', PStr ''Song''), (''ext'', PStr ''mp4'')])
   \<and> transfer_succeeds example_library False ''best'' True ''ok'' initial_world
   \<and> (\<exists>w'. download_video_advanced example_library (PStr ''ok'') False ''best'' True initial_world
              = Inr (True, w')
          \<and> load_download_history w' =
              [PDict (download_record ''2024-01-01T00:00:00''
                        [(''title'', PStr ''Song''), (''ext'', PStr ''mp4'')])])
   \<and> \<not> transfer_succeeds example_library False ''best'' True ''stall'' initial_world
   \<and> (\<exists>w'. download_video_advanced example_library (PStr ''stall'') False ''best'' True
              initial_world = Inr (False, w')
          \<and> load_download_history w' = [])"
proof -
  have l: "load_download_history initial_world = []"
    by (simp add: load_download_history_def initial_world_def)
  have a: "extract_info example_library (lib_calls initial_world) ''bad'' =
      Inl (LibraryError ''unavailable'')"
    by (simp add: example_library_def)
  have b: "extract_info example_library (lib_calls initial_world) ''ok'' =
        Inr (PDict [(''title'', PStr ''Song''), (''ext'', PStr ''mp4'')])"
    by (simp add: example_library_def)
  have c: "extract_info example_library (lib_calls initial_world) ''stall'' =
        Inr (PDict [(''title'', PStr ''Song''), (''ext'', PStr ''mp4'')])"
    by (simp add: example_library_def)
  have t: "transfer_succeeds example_library False ''best'' True ''ok'' initial_world"
    by (simp add: transfer_succeeds_def example_library_def progress_hook_def dict_get_def)
  have s: "\<not> transfer_succeeds example_library False ''best'' True ''stall'' initial_world"
    by (simp add: transfer_succeeds_def example_library_def)
  have n: "now_iso example_library
      (lib_calls initial_world @ [ExtractInfo ''ok'', Download (ydl_opts False ''best'') ''ok'']) =
      ''2024-01-01T00:00:00''"
    by (simp add: example_library_def)
  show ?thesis
    using download_outcome [of example_library initial_world "''bad''"
        "LibraryError ''unavailable''" False "''best''" True]
      download_outcome [of example_library initial_world "''ok''" _ False "''best''" True
        "[(''title'', PStr ''Song''), (''ext'', PStr ''mp4'')]"]
      download_outcome [of example_library initial_world "''stall''" _ False "''best''" True _
        "PDict [(''title'', PStr ''Song''), (''ext'', PStr ''mp4'')]"]
      a b c t s
    unfolding l n by auto
qed

section \<open>Properties of the orchestrators\<close>
















section \<open>Properties of the progress reporter\<close>









lemma round_double_half: "round_double (1 / 2) = Inr (1 / 2)"
  by code_simp

lemma round_double_minus_half: "round_double (- (1 / 2)) = Inr (- (1 / 2))"
  using round_double_half unfolding round_double_neg by simp


lemma strip_percent: "py_strip '' 50.0%'' = ''50.0%''" "py_strip ''0%'' = ''0%''"
    "py_strip ''0KB/s'' = ''0KB/s''" "py_strip ''Unknown'' = ''Unknown''"
  by (simp_all add: py_strip_def is_space_def)

lemma basename_examples: "py_basename ''downloads/a.mp4'' = ''a.mp4''"
    "py_basename ''Unknown'' = ''Unknown''"
  by (simp_all add: py_basename_def)


text \<open>
  Outside the hypothesis of a byte counter, the quotient is bounded from above only:
  \<^verbatim>\<open>min(downloaded / total, 1.0)\<close> has no lower clamp, so a negative downloaded count, which
  the download library does not deliver, would give a negative value.
\<close>

lemma progress_bar_negative_count:
  "progress_hook [(''status'', PStr ''downloading''), (''downloaded_bytes'', PInt (- 1)),
                  (''total_bytes'', PInt 2)] =
     Inr [Progress (- (1 / 2)) (inbox_tray @ '' Unknown''),
          Info (status_text ''Unknown'' ''0%'' ''0KB/s'' ''Unknown'')]"
  by (simp add: progress_hook_def dict_get_def get_stripped_def try_bind_def Let_def
      progress_bar_def py_truediv_def round_double_minus_half strip_percent basename_examples)

end
